theory Spec2Isabelle
  imports Complex_Main "HOL-Library.AList"
begin

section \<open>Values exchanged with the backend\<close>

text \<open>
  The store of \<^verbatim>\<open>document_store.py\<close> exchanges JSON-like Python values with the
  Elasticsearch client. Python dictionaries keep insertion order and have unique keys:
  they are association lists read with \<open>map_of\<close>. The type \<open>'f\<close> stands for Python's
  \<^verbatim>\<open>float\<close>: the store passes floats on, and only the rescaling of scores computes with
  them.
\<close>

datatype 'f json =
    JNull
  | JBool bool
  | JInt int
  | JFloat 'f
  | JStr string
  | JList "'f json list"
  | JDict "(string \<times> 'f json) list"

type_synonym 'f dict = "(string \<times> 'f json) list"

definition has_key :: "'f dict \<Rightarrow> string \<Rightarrow> bool" where
  "has_key d key = (map_of d key \<noteq> None)"

text \<open>One item of the failure list of \<^verbatim>\<open>helpers.bulk\<close>: the dictionary
  \<^verbatim>\<open>{op: {"_id": .., "status": .., "error": {"type": ..}}}\<close> with its single key \<open>op\<close>.\<close>

record bulk_item =
  op_key :: string
  item_id :: string
  status :: int
  error_type :: string

datatype error =
    ValueError string
  | KeyError string
  | TypeError
  | AttributeError
  | TransportError
  | FilterError string
  | DuplicateDocumentError string
  | DocumentStoreError_errors "bulk_item list"
  | DocumentStoreError_from error

text \<open>The class of a raised exception. \<^verbatim>\<open>DocumentStoreError_errors\<close> is the
  \<^verbatim>\<open>DocumentStoreError\<close> whose message lists the failed items, \<^verbatim>\<open>DocumentStoreError_from e\<close>
  the one raised \<^verbatim>\<open>from e\<close> by an \<^verbatim>\<open>except Exception as e\<close> clause.\<close>

datatype error_class =
  ValueErrorC | KeyErrorC | TypeErrorC | AttributeErrorC | TransportErrorC | FilterErrorC
  | DuplicateDocumentErrorC | DocumentStoreErrorC

fun class_of :: "error \<Rightarrow> error_class" where
  "class_of (ValueError m) = ValueErrorC"
| "class_of (KeyError m) = KeyErrorC"
| "class_of TypeError = TypeErrorC"
| "class_of AttributeError = AttributeErrorC"
| "class_of TransportError = TransportErrorC"
| "class_of (FilterError m) = FilterErrorC"
| "class_of (DuplicateDocumentError m) = DuplicateDocumentErrorC"
| "class_of (DocumentStoreError_errors es) = DocumentStoreErrorC"
| "class_of (DocumentStoreError_from e) = DocumentStoreErrorC"

datatype DuplicatePolicy = NONE | SKIP | OVERWRITE | FAIL

text \<open>A haystack \<^verbatim>\<open>Document\<close>, as far as the store reads it: its \<^verbatim>\<open>id\<close>, its
  \<^verbatim>\<open>score\<close> and the rest of its fields. An element of a write batch is a
  \<^verbatim>\<open>Document\<close> or some other Python object; such an object may still have an attribute
  \<^verbatim>\<open>id\<close> and a method \<^verbatim>\<open>to_dict\<close> (then it carries the identifier and the dictionary
  they give), or lack them.\<close>

record 'f document =
  doc_id :: string
  score :: "'f option"
  doc_fields :: "'f dict"

datatype 'f pyobj = Doc "'f document" | NotADocument "(string \<times> 'f dict) option"

fun is_Document :: "'f pyobj \<Rightarrow> bool" where
  "is_Document (Doc d) = True"
| "is_Document (NotADocument attrs) = False"

text \<open>What the store calls but does not define: \<^verbatim>\<open>Document.to_dict\<close> and
  \<^verbatim>\<open>Document.from_dict\<close> of haystack, \<^verbatim>\<open>_normalize_filters\<close> of the module
  \<^verbatim>\<open>filters\<close>, and the floating-point expression
  \<^verbatim>\<open>float(1 / (1 + np.exp(-(score / BM25_SCALING_FACTOR))))\<close> that both variants of the
  lexical search apply to a score.\<close>

record 'f deps =
  to_dict :: "'f document \<Rightarrow> 'f dict"
  from_dict :: "'f dict \<Rightarrow> error + 'f document"
  normalize_filters :: "'f dict \<Rightarrow> error + 'f json"
  scale :: "'f \<Rightarrow> 'f"

section \<open>Requests, responses and the store\<close>

record 'f knn =
  knn_field :: string
  knn_query_vector :: "'f list"
  knn_k :: int
  knn_num_candidates :: int
  knn_filter :: "'f json option"

text \<open>The keyword arguments of \<^verbatim>\<open>_search_documents\<close>: \<^verbatim>\<open>size\<close>, \<^verbatim>\<open>query\<close>, \<^verbatim>\<open>knn\<close>.\<close>

record 'f search_kwargs =
  kw_size :: "int option"
  kw_query :: "'f json option"
  kw_knn :: "'f knn option"

record 'f hit =
  source :: "'f dict"
  highlight :: "'f json option"
  hit_score :: "'f json"

record 'f page =
  hits :: "'f hit list"
  total :: int

record 'f action =
  a_op_type :: string
  a_id :: string
  a_source :: "'f dict"

datatype refresh = WaitFor | RefreshTrue

text \<open>The backend: whether \<^verbatim>\<open>client.info()\<close> succeeds, whether the index exists, and
  what \<^verbatim>\<open>search\<close> and \<^verbatim>\<open>helpers.bulk\<close> answer (\<open>Inl\<close> when the transport raises).\<close>

record 'f backend =
  info_ok :: bool
  index_exists :: bool
  search_resp :: "nat \<Rightarrow> 'f search_kwargs \<Rightarrow> error + 'f page"
  bulk_resp :: "'f action list \<Rightarrow> error + nat \<times> bulk_item list"

datatype 'f call =
    Info
  | IndicesExists
  | IndicesCreate
  | Search nat "'f search_kwargs"
  | Bulk "'f action list" refresh

text \<open>The store: the flag \<^verbatim>\<open>_initialized\<close>, whether \<^verbatim>\<open>_client\<close> and
  \<^verbatim>\<open>_async_client\<close> have been assigned (they start as \<^verbatim>\<open>None\<close>), and the network
  requests sent so far.\<close>

record 'f store =
  initialized :: bool
  clients_created :: bool
  calls :: "'f call list"

definition send :: "'f call \<Rightarrow> 'f store \<Rightarrow> 'f store" where
  "send c st = st\<lparr>calls := calls st @ [c]\<rparr>"

definition ensure_initialized :: "'f backend \<Rightarrow> 'f store \<Rightarrow> (error + unit) \<times> 'f store" where
  "ensure_initialized be st =
     (if \<not> initialized st then
        (let st1 = send Info (st\<lparr>clients_created := True\<rparr>) in
         if \<not> info_ok be then (Inl TransportError, st1)
         else
           (let st2 = send IndicesExists st1;
                st3 = (if \<not> index_exists be then send IndicesCreate st2 else st2)
            in (Inr (), st3\<lparr>initialized := True\<rparr>)))
      else (Inr (), st))"

section \<open>Writing documents\<close>

definition version_conflict :: string where
  "version_conflict = ''version_conflict_engine_exception''"

definition DOC_ALREADY_EXISTS :: int where
  "DOC_ALREADY_EXISTS = 409"

text \<open>\<^verbatim>\<open>sep.join(xs)\<close> of Python, and the apostrophe of the messages.\<close>

fun join :: "string \<Rightarrow> string list \<Rightarrow> string" where
  "join sep [] = []"
| "join sep [x] = x"
| "join sep (x # y # ys) = x @ sep @ join sep (y # ys)"

definition apostrophe :: string where
  "apostrophe = [CHR 0x27]"

definition not_documents_msg :: string where
  "not_documents_msg =
     ''param '' @ apostrophe @ ''documents'' @ apostrophe @
     '' must contain a list of objects of type Document''"

definition duplicate_ids_msg :: "string list \<Rightarrow> string" where
  "duplicate_ids_msg ids =
     ''IDs '' @ apostrophe @ join '', '' ids @ apostrophe @
     '' already exist in the document store.''"

definition duplicate_id_msg :: "string \<Rightarrow> string" where
  "duplicate_id_msg i =
     ''ID '' @ apostrophe @ i @ apostrophe @ '' already exists in the document store''"

text \<open>The body of the loop over the batch: \<^verbatim>\<open>doc.to_dict()\<close>, the key
  \<^verbatim>\<open>sparse_embedding\<close> popped, and the action appended with \<^verbatim>\<open>doc.id\<close>. The loop
  does not ask whether \<^verbatim>\<open>doc\<close> is a \<^verbatim>\<open>Document\<close>: any object with \<^verbatim>\<open>to_dict\<close> and
  \<^verbatim>\<open>id\<close> yields an action, and \<^verbatim>\<open>doc.to_dict()\<close> raises \<^verbatim>\<open>AttributeError\<close> on an
  object without them. The warning that the source logs is not modelled.\<close>

definition pop_sparse_embedding :: "'f dict \<Rightarrow> 'f dict" where
  "pop_sparse_embedding doc_dict =
     (if has_key doc_dict ''sparse_embedding''
      then AList.delete ''sparse_embedding'' doc_dict else doc_dict)"

definition doc_source :: "'f deps \<Rightarrow> 'f document \<Rightarrow> 'f dict" where
  "doc_source dp d = pop_sparse_embedding (to_dict dp d)"

fun actions_loop ::
  "'f deps \<Rightarrow> string \<Rightarrow> 'f pyobj list \<Rightarrow> error + 'f action list" where
  "actions_loop dp act [] = Inr []"
| "actions_loop dp act (NotADocument None # ds) = Inl AttributeError"
| "actions_loop dp act (NotADocument (Some (i, doc_dict)) # ds) =
     (case actions_loop dp act ds of
        Inl e \<Rightarrow> Inl e
      | Inr acts \<Rightarrow>
          Inr (\<lparr>a_op_type = act, a_id = i, a_source = pop_sparse_embedding doc_dict\<rparr> # acts))"
| "actions_loop dp act (Doc d # ds) =
     (case actions_loop dp act ds of
        Inl e \<Rightarrow> Inl e
      | Inr acts \<Rightarrow>
          Inr (\<lparr>a_op_type = act, a_id = doc_id d, a_source = doc_source dp d\<rparr> # acts))"

text \<open>The statements of \<^verbatim>\<open>write_documents\<close> and \<^verbatim>\<open>write_documents_async\<close> that lead to
  the list \<^verbatim>\<open>elasticsearch_actions\<close> (\<^verbatim>\<open>actions\<close> in the asynchronous variant): the check
  of \<^verbatim>\<open>documents[0]\<close>, the only element that is checked, then the loop.\<close>

definition elasticsearch_actions ::
  "'f deps \<Rightarrow> string \<Rightarrow> 'f pyobj list \<Rightarrow> error + 'f action list" where
  "elasticsearch_actions dp act documents =
     (if length documents > 0 \<and> \<not> is_Document (hd documents)
        then Inl (ValueError not_documents_msg)
      else actions_loop dp act documents)"

text \<open>\<^verbatim>\<open>write_documents\<close>, from the resolution of the policy to the verb.\<close>

definition resolve_policy :: "DuplicatePolicy \<Rightarrow> DuplicatePolicy" where
  "resolve_policy policy = (if policy = NONE then FAIL else policy)"

definition action_sync :: "DuplicatePolicy \<Rightarrow> string" where
  "action_sync policy = (if resolve_policy policy = OVERWRITE then ''index'' else ''create'')"

text \<open>\<^verbatim>\<open>write_documents_async\<close> computes the verb inside the loop, from the
  resolved policy.\<close>

definition action_async :: "DuplicatePolicy \<Rightarrow> string" where
  "action_async policy = (if resolve_policy policy = FAIL then ''create'' else ''index'')"

text \<open>The loop of \<^verbatim>\<open>write_documents\<close> over the failed items. \<^verbatim>\<open>e["create"]\<close>
  raises \<^verbatim>\<open>KeyError\<close> on an item reported under another verb.\<close>

fun classify ::
  "DuplicatePolicy \<Rightarrow> bulk_item list \<Rightarrow> string list \<Rightarrow> bulk_item list
     \<Rightarrow> error + string list \<times> bulk_item list" where
  "classify policy [] duplicate_errors_ids other_errors =
     Inr (duplicate_errors_ids, other_errors)"
| "classify policy (e # es) duplicate_errors_ids other_errors =
     (if op_key e \<noteq> ''create'' then Inl (KeyError ''create'')
      else if policy = FAIL \<and> error_type e = version_conflict
        then classify policy es (duplicate_errors_ids @ [item_id e]) other_errors
      else if policy = SKIP \<and> error_type e = version_conflict
        then classify policy es duplicate_errors_ids other_errors
      else classify policy es duplicate_errors_ids (other_errors @ [e]))"

definition reconcile :: "DuplicatePolicy \<Rightarrow> nat \<Rightarrow> bulk_item list \<Rightarrow> error + nat" where
  "reconcile policy documents_written errors =
     (if errors \<noteq> [] then
        (case classify policy errors [] [] of
           Inl e \<Rightarrow> Inl e
         | Inr (duplicate_errors_ids, other_errors) \<Rightarrow>
             if length duplicate_errors_ids > 0
               then Inl (DuplicateDocumentError (duplicate_ids_msg duplicate_errors_ids))
             else if length other_errors > 0
               then Inl (DocumentStoreError_errors other_errors)
             else Inr documents_written)
      else Inr documents_written)"

definition write_documents ::
  "'f deps \<Rightarrow> 'f backend \<Rightarrow> 'f pyobj list \<Rightarrow> DuplicatePolicy \<Rightarrow> 'f store
     \<Rightarrow> (error + nat) \<times> 'f store" where
  "write_documents dp be documents policy st =
     (case elasticsearch_actions dp (action_sync policy) documents of
        Inl e \<Rightarrow> (Inl e, st)
      | Inr acts \<Rightarrow>
          (case ensure_initialized be st of
             (Inl e, st1) \<Rightarrow> (Inl e, st1)
           | (Inr u, st1) \<Rightarrow>
               (let st2 = send (Bulk acts WaitFor) st1 in
                case bulk_resp be acts of
                  Inl e \<Rightarrow> (Inl e, st2)
                | Inr (documents_written, errors) \<Rightarrow>
                    (reconcile (resolve_policy policy) documents_written errors, st2))))"

text \<open>The \<^verbatim>\<open>try\<close> block of \<^verbatim>\<open>write_documents_async\<close> after the bulk call: the first
  item under \<^verbatim>\<open>create\<close> with status 409 raises \<^verbatim>\<open>DuplicateDocumentError\<close>, any
  other failure \<^verbatim>\<open>DocumentStoreError\<close>.\<close>

fun first_existing :: "bulk_item list \<Rightarrow> string option" where
  "first_existing [] = None"
| "first_existing (e # es) =
     (if op_key e = ''create'' \<and> status e = DOC_ALREADY_EXISTS
      then Some (item_id e) else first_existing es)"

definition reconcile_async :: "DuplicatePolicy \<Rightarrow> nat \<Rightarrow> bulk_item list \<Rightarrow> error + nat" where
  "reconcile_async policy success failed =
     (if failed \<noteq> [] then
        (if policy = FAIL then
           (case first_existing failed of
              Some i \<Rightarrow> Inl (DuplicateDocumentError (duplicate_id_msg i))
            | None \<Rightarrow> Inl (DocumentStoreError_errors failed))
         else Inl (DocumentStoreError_errors failed))
      else Inr success)"

text \<open>The clause \<^verbatim>\<open>except Exception as e: raise DocumentStoreError(msg) from e\<close>. Every
  exception of the model derives from \<^verbatim>\<open>Exception\<close>, \<^verbatim>\<open>DuplicateDocumentError\<close>
  included (it derives from \<^verbatim>\<open>DocumentStoreError\<close>), so the clause catches all of them.\<close>

definition except_Exception :: "error + 'a \<Rightarrow> error + 'a" where
  "except_Exception r = (case r of Inl e \<Rightarrow> Inl (DocumentStoreError_from e) | Inr v \<Rightarrow> Inr v)"

definition write_documents_async ::
  "'f deps \<Rightarrow> 'f backend \<Rightarrow> 'f pyobj list \<Rightarrow> DuplicatePolicy \<Rightarrow> 'f store
     \<Rightarrow> (error + nat) \<times> 'f store" where
  "write_documents_async dp be documents policy st =
     (case ensure_initialized be st of
        (Inl e, st1) \<Rightarrow> (Inl e, st1)
      | (Inr u, st1) \<Rightarrow>
          (case elasticsearch_actions dp (action_async policy) documents of
             Inl e \<Rightarrow> (Inl e, st1)
           | Inr acts \<Rightarrow>
               (case ensure_initialized be st1 of
                  (Inl e, st2) \<Rightarrow> (except_Exception (Inl e), st2)
                | (Inr u, st2) \<Rightarrow>
                    (let st3 = send (Bulk acts RefreshTrue) st2 in
                     case bulk_resp be acts of
                       Inl e \<Rightarrow> (except_Exception (Inl e), st3)
                     | Inr (success, failed) \<Rightarrow>
                         (except_Exception
                            (reconcile_async (resolve_policy policy) success failed),
                          st3)))))"

section \<open>Searching\<close>

text \<open>\<^verbatim>\<open>_deserialize_document\<close>: the dictionary handed to \<^verbatim>\<open>Document.from_dict\<close>,
  then the document. \<^verbatim>\<open>data["metadata"]["highlighted"] = ...\<close> raises \<^verbatim>\<open>KeyError\<close>
  without the key \<^verbatim>\<open>metadata\<close> and \<^verbatim>\<open>TypeError\<close> when its value is no dictionary.\<close>

definition deserialize_data :: "'f hit \<Rightarrow> error + 'f dict" where
  "deserialize_data h =
     (let data = source h in
      case
        (case highlight h of
           None \<Rightarrow> Inr data
         | Some hl \<Rightarrow>
             (case map_of data ''metadata'' of
                None \<Rightarrow> Inl (KeyError ''metadata'')
              | Some (JDict metadata) \<Rightarrow>
                  Inr (AList.update ''metadata''
                         (JDict (AList.update ''highlighted'' hl metadata)) data)
              | Some other \<Rightarrow> Inl TypeError))
      of
        Inl e \<Rightarrow> Inl e
      | Inr data1 \<Rightarrow> Inr (AList.update ''score'' (hit_score h) data1))"

definition deserialize_document :: "'f deps \<Rightarrow> 'f hit \<Rightarrow> error + 'f document" where
  "deserialize_document dp h =
     (case deserialize_data h of Inl e \<Rightarrow> Inl e | Inr data \<Rightarrow> from_dict dp data)"

text \<open>The generator \<^verbatim>\<open>self._deserialize_document(hit) for hit in res["hits"]["hits"]\<close>,
  stopped by the first hit that raises.\<close>

fun deserialize_hits :: "'f deps \<Rightarrow> 'f hit list \<Rightarrow> error + 'f document list" where
  "deserialize_hits dp [] = Inr []"
| "deserialize_hits dp (h # hs) =
     (case deserialize_document dp h of
        Inl e \<Rightarrow> Inl e
      | Inr d \<Rightarrow>
          (case deserialize_hits dp hs of Inl e \<Rightarrow> Inl e | Inr ds \<Rightarrow> Inr (d # ds)))"

text \<open>\<^verbatim>\<open>top_k\<close> of \<^verbatim>\<open>_search_documents\<close>: \<^verbatim>\<open>size\<close>, else the \<^verbatim>\<open>k\<close> of \<^verbatim>\<open>knn\<close>, else
  \<^verbatim>\<open>None\<close>.\<close>

definition top_k_of :: "'f search_kwargs \<Rightarrow> int option" where
  "top_k_of kwargs =
     (case kw_size kwargs of
        Some n \<Rightarrow> Some n
      | None \<Rightarrow> (case kw_knn kwargs of Some kn \<Rightarrow> Some (knn_k kn) | None \<Rightarrow> None))"

text \<open>The two executors differ in the client they use: \<^verbatim>\<open>self.client\<close> is the property
  that runs \<^verbatim>\<open>_ensure_initialized\<close>, \<^verbatim>\<open>self._async_client\<close> is the attribute, \<^verbatim>\<open>None\<close>
  until the clients are created.\<close>

datatype mode = Sync | Async

fun client_of :: "mode \<Rightarrow> 'f backend \<Rightarrow> 'f store \<Rightarrow> (error + unit) \<times> 'f store" where
  "client_of Sync be st = ensure_initialized be st"
| "client_of Async be st =
     (if clients_created st then (Inr (), st) else (Inl AttributeError, st))"

text \<open>The two break conditions of the loop.\<close>

definition stops :: "int option \<Rightarrow> nat \<Rightarrow> int \<Rightarrow> bool" where
  "stops top_k from_off total_value =
     ((case top_k of None \<Rightarrow> False | Some n \<Rightarrow> int from_off \<ge> n) \<or> int from_off \<ge> total_value)"

text \<open>The \<^verbatim>\<open>while True\<close> loop of \<^verbatim>\<open>_search_documents\<close> and
  \<^verbatim>\<open>_search_documents_async\<close>. The loop need not end: the result is an option.\<close>

partial_function (option) search_loop ::
  "'f deps \<Rightarrow> 'f backend \<Rightarrow> mode \<Rightarrow> 'f search_kwargs \<Rightarrow> int option
     \<Rightarrow> 'f document list \<Rightarrow> nat \<Rightarrow> 'f store
     \<Rightarrow> ((error + 'f document list) \<times> 'f store) option" where
  "search_loop dp be m kwargs top_k documents from_off st =
     (case client_of m be st of
        (Inl e, st1) \<Rightarrow> Some (Inl e, st1)
      | (Inr u, st1) \<Rightarrow>
          (let st2 = send (Search from_off kwargs) st1 in
           case search_resp be from_off kwargs of
             Inl e \<Rightarrow> Some (Inl e, st2)
           | Inr res \<Rightarrow>
               (case deserialize_hits dp (hits res) of
                  Inl e \<Rightarrow> Some (Inl e, st2)
                | Inr ds \<Rightarrow>
                    (let documents1 = documents @ ds;
                         from1 = length documents1
                     in if stops top_k from1 (total res) then Some (Inr documents1, st2)
                        else search_loop dp be m kwargs top_k documents1 from1 st2))))"

definition search_documents ::
  "'f deps \<Rightarrow> 'f backend \<Rightarrow> 'f search_kwargs \<Rightarrow> 'f store
     \<Rightarrow> ((error + 'f document list) \<times> 'f store) option" where
  "search_documents dp be kwargs st = search_loop dp be Sync kwargs (top_k_of kwargs) [] 0 st"

definition search_documents_async ::
  "'f deps \<Rightarrow> 'f backend \<Rightarrow> 'f search_kwargs \<Rightarrow> 'f store
     \<Rightarrow> ((error + 'f document list) \<times> 'f store) option" where
  "search_documents_async dp be kwargs st =
     search_loop dp be Async kwargs (top_k_of kwargs) [] 0 st"

section \<open>Filtering and retrieval\<close>

definition invalid_filter_msg :: string where
  "invalid_filter_msg =
     ''Invalid filter syntax. See https://docs.haystack.deepset.ai/docs/metadata-filtering for details.''"

text \<open>\<^verbatim>\<open>if filters and "operator" not in filters and "conditions" not in filters\<close>;
  \<^verbatim>\<open>filters\<close> is true when it is neither \<^verbatim>\<open>None\<close> nor the empty dictionary.\<close>

definition invalid_filter :: "'f dict option \<Rightarrow> bool" where
  "invalid_filter filters =
     (case filters of
        None \<Rightarrow> False
      | Some f \<Rightarrow> f \<noteq> [] \<and> \<not> has_key f ''operator'' \<and> \<not> has_key f ''conditions'')"

text \<open>\<^verbatim>\<open>_normalize_filters(filters) if filters else None\<close>.\<close>

definition normalized :: "'f deps \<Rightarrow> 'f dict option \<Rightarrow> error + 'f json option" where
  "normalized dp filters =
     (case filters of
        None \<Rightarrow> Inr None
      | Some f \<Rightarrow>
          if f \<noteq> [] then
            (case normalize_filters dp f of Inl e \<Rightarrow> Inl e | Inr nf \<Rightarrow> Inr (Some nf))
          else Inr None)"

definition filter_kwargs :: "'f json option \<Rightarrow> 'f search_kwargs" where
  "filter_kwargs nf =
     \<lparr>kw_size = None,
      kw_query = map_option (\<lambda>f. JDict [(''bool'', JDict [(''filter'', f)])]) nf,
      kw_knn = None\<rparr>"

definition filter_documents ::
  "'f deps \<Rightarrow> 'f backend \<Rightarrow> 'f dict option \<Rightarrow> 'f store
     \<Rightarrow> ((error + 'f document list) \<times> 'f store) option" where
  "filter_documents dp be filters st =
     (if invalid_filter filters then Some (Inl (ValueError invalid_filter_msg), st)
      else
        (case ensure_initialized be st of
           (Inl e, st1) \<Rightarrow> Some (Inl e, st1)
         | (Inr u, st1) \<Rightarrow>
             (case normalized dp filters of
                Inl e \<Rightarrow> Some (Inl e, st1)
              | Inr nf \<Rightarrow> search_documents dp be (filter_kwargs nf) st1)))"

definition filter_documents_async ::
  "'f deps \<Rightarrow> 'f backend \<Rightarrow> 'f dict option \<Rightarrow> 'f store
     \<Rightarrow> ((error + 'f document list) \<times> 'f store) option" where
  "filter_documents_async dp be filters st =
     (if invalid_filter filters then Some (Inl (ValueError invalid_filter_msg), st)
      else
        (case ensure_initialized be st of
           (Inl e, st1) \<Rightarrow> Some (Inl e, st1)
         | (Inr u, st1) \<Rightarrow>
             (case normalized dp filters of
                Inl e \<Rightarrow> Some (Inl e, st1)
              | Inr nf \<Rightarrow> search_documents_async dp be (filter_kwargs nf) st1)))"

text \<open>The body of the lexical search. The asynchronous variant lists the keys of
  \<^verbatim>\<open>multi_match\<close> in another order; it is the same dictionary.\<close>

definition bm25_kwargs :: "string \<Rightarrow> string \<Rightarrow> int \<Rightarrow> 'f json option \<Rightarrow> 'f search_kwargs" where
  "bm25_kwargs query_text fuzziness top_k nf =
     \<lparr>kw_size = Some top_k,
      kw_query = Some (JDict [(''bool'', JDict
         ((''must'', JList [JDict [(''multi_match'', JDict
              [(''query'', JStr query_text), (''fuzziness'', JStr fuzziness),
               (''type'', JStr ''most_fields''), (''operator'', JStr ''OR'')])]])
          # (case nf of None \<Rightarrow> [] | Some f \<Rightarrow> [(''filter'', f)])))]),
      kw_knn = None\<rparr>"

definition empty_query_msg :: string where
  "empty_query_msg = ''query must be a non empty string''"

text \<open>The loop under \<^verbatim>\<open>if scale_score\<close>: a document without score is skipped.\<close>

definition rescale :: "'f deps \<Rightarrow> 'f document list \<Rightarrow> 'f document list" where
  "rescale dp docs =
     map (\<lambda>d. case score d of None \<Rightarrow> d | Some s \<Rightarrow> d\<lparr>score := Some (scale dp s)\<rparr>) docs"

definition scored ::
  "'f deps \<Rightarrow> bool \<Rightarrow> ((error + 'f document list) \<times> 'f store) option
     \<Rightarrow> ((error + 'f document list) \<times> 'f store) option" where
  "scored dp scale_score r =
     (case r of
        None \<Rightarrow> None
      | Some (Inl e, st1) \<Rightarrow> Some (Inl e, st1)
      | Some (Inr docs, st1) \<Rightarrow> Some (Inr (if scale_score then rescale dp docs else docs), st1))"

definition bm25_retrieval ::
  "'f deps \<Rightarrow> 'f backend \<Rightarrow> string \<Rightarrow> 'f dict option \<Rightarrow> string \<Rightarrow> int \<Rightarrow> bool
     \<Rightarrow> 'f store \<Rightarrow> ((error + 'f document list) \<times> 'f store) option" where
  "bm25_retrieval dp be query_text filters fuzziness top_k scale_score st =
     (if query_text = [] then Some (Inl (ValueError empty_query_msg), st)
      else
        (case normalized dp filters of
           Inl e \<Rightarrow> Some (Inl e, st)
         | Inr nf \<Rightarrow>
             scored dp scale_score
               (search_documents dp be (bm25_kwargs query_text fuzziness top_k nf) st)))"

definition bm25_retrieval_async ::
  "'f deps \<Rightarrow> 'f backend \<Rightarrow> string \<Rightarrow> 'f dict option \<Rightarrow> string \<Rightarrow> int \<Rightarrow> bool
     \<Rightarrow> 'f store \<Rightarrow> ((error + 'f document list) \<times> 'f store) option" where
  "bm25_retrieval_async dp be query_text filters fuzziness top_k scale_score st =
     (case ensure_initialized be st of
        (Inl e, st1) \<Rightarrow> Some (Inl e, st1)
      | (Inr u, st1) \<Rightarrow>
          (if query_text = [] then Some (Inl (ValueError empty_query_msg), st1)
           else
             (case normalized dp filters of
                Inl e \<Rightarrow> Some (Inl e, st1)
              | Inr nf \<Rightarrow>
                  scored dp scale_score
                    (search_documents_async dp be
                       (bm25_kwargs query_text fuzziness top_k nf) st1))))"

definition empty_embedding_msg :: string where
  "empty_embedding_msg = ''query_embedding must be a non-empty list of floats''"

text \<open>The candidate pool: \<^verbatim>\<open>if not num_candidates\<close> in \<^verbatim>\<open>_embedding_retrieval\<close> (true of
  \<^verbatim>\<open>None\<close> and of 0), \<^verbatim>\<open>if num_candidates is None\<close> in the asynchronous variant.\<close>

definition candidates_sync :: "int \<Rightarrow> int option \<Rightarrow> int" where
  "candidates_sync top_k num_candidates =
     (case num_candidates of
        None \<Rightarrow> top_k * 10
      | Some n \<Rightarrow> if n = 0 then top_k * 10 else n)"

definition candidates_async :: "int \<Rightarrow> int option \<Rightarrow> int" where
  "candidates_async top_k num_candidates =
     (case num_candidates of None \<Rightarrow> top_k * 10 | Some n \<Rightarrow> n)"

definition knn_kwargs :: "'f list \<Rightarrow> int \<Rightarrow> int \<Rightarrow> 'f json option \<Rightarrow> 'f search_kwargs" where
  "knn_kwargs query_embedding top_k num_candidates nf =
     \<lparr>kw_size = None, kw_query = None,
      kw_knn = Some \<lparr>knn_field = ''embedding'', knn_query_vector = query_embedding,
                     knn_k = top_k, knn_num_candidates = num_candidates, knn_filter = nf\<rparr>\<rparr>"

definition embedding_retrieval ::
  "'f deps \<Rightarrow> 'f backend \<Rightarrow> 'f list \<Rightarrow> 'f dict option \<Rightarrow> int \<Rightarrow> int option
     \<Rightarrow> 'f store \<Rightarrow> ((error + 'f document list) \<times> 'f store) option" where
  "embedding_retrieval dp be query_embedding filters top_k num_candidates st =
     (if query_embedding = [] then Some (Inl (ValueError empty_embedding_msg), st)
      else
        (case normalized dp filters of
           Inl e \<Rightarrow> Some (Inl e, st)
         | Inr nf \<Rightarrow>
             search_documents dp be
               (knn_kwargs query_embedding top_k (candidates_sync top_k num_candidates) nf) st))"

definition embedding_retrieval_async ::
  "'f deps \<Rightarrow> 'f backend \<Rightarrow> 'f list \<Rightarrow> 'f dict option \<Rightarrow> int \<Rightarrow> int option
     \<Rightarrow> 'f store \<Rightarrow> ((error + 'f document list) \<times> 'f store) option" where
  "embedding_retrieval_async dp be query_embedding filters top_k num_candidates st =
     (case ensure_initialized be st of
        (Inl e, st1) \<Rightarrow> Some (Inl e, st1)
      | (Inr u, st1) \<Rightarrow>
          (if query_embedding = [] then Some (Inl (ValueError empty_embedding_msg), st1)
           else
             (case normalized dp filters of
                Inl e \<Rightarrow> Some (Inl e, st1)
              | Inr nf \<Rightarrow>
                  search_documents_async dp be
                    (knn_kwargs query_embedding top_k
                       (candidates_async top_k num_candidates) nf) st1)))"

section \<open>Scores as doubles\<close>

text \<open>
  The store itself only passes scores on. The rescaling of \<^verbatim>\<open>_bm25_retrieval\<close> computes with
  them: \<^verbatim>\<open>float(1 / (1 + np.exp(-np.asarray(doc.score / BM25_SCALING_FACTOR))))\<close> is
  IEEE 754 binary64 arithmetic. A double is a real number with a 53-bit significand and an
  exponent of at least \<open>-1074\<close>, or an infinity, or a NaN; the two zeros are not told apart.
  Every operation rounds its exact result to the nearest double, ties to the even
  significand, and overflows to an infinity.
\<close>

text \<open>Rounding to the nearest integer, ties to even.\<close>

definition round_even :: "real \<Rightarrow> int" where
  "round_even x =
     (let f = \<lfloor>x\<rfloor> in
      if x - of_int f < 1 / 2 then f
      else if x - of_int f > 1 / 2 then f + 1
      else if even f then f else f + 1)"

text \<open>The exponent of the unit in the last place of a real: 52 below its binary exponent,
  and \<open>-1074\<close> in the subnormal range.\<close>

definition ulp_exponent :: "real \<Rightarrow> int" where
  "ulp_exponent x = max (\<lfloor>log 2 \<bar>x\<bar>\<rfloor> - 52) (- 1074)"

text \<open>Rounding to the nearest multiple of that unit, sign and magnitude apart.\<close>

definition round_nearest :: "real \<Rightarrow> real" where
  "round_nearest x =
     sgn x * (of_int (round_even (\<bar>x\<bar> / 2 powr of_int (ulp_exponent x)))
              * 2 powr of_int (ulp_exponent x))"

datatype double = Finite real | PosInf | NegInf | NaN

text \<open>The double of a real: rounded, an infinity from \<open>2 ^ 1024\<close> on.\<close>

definition to_double :: "real \<Rightarrow> double" where
  "to_double x =
     (let r = round_nearest x in
      if 2 ^ 1024 \<le> r then PosInf else if r \<le> - (2 ^ 1024) then NegInf else Finite r)"

definition BM25_SCALING_FACTOR :: real where
  "BM25_SCALING_FACTOR = 8"

text \<open>\<^verbatim>\<open>doc.score / BM25_SCALING_FACTOR\<close>.\<close>

fun scaled_down :: "double \<Rightarrow> double" where
  "scaled_down (Finite x) = to_double (x / BM25_SCALING_FACTOR)"
| "scaled_down PosInf = PosInf"
| "scaled_down NegInf = NegInf"
| "scaled_down NaN = NaN"

text \<open>The unary minus.\<close>

fun negative :: "double \<Rightarrow> double" where
  "negative (Finite x) = Finite (- x)"
| "negative PosInf = NegInf"
| "negative NegInf = PosInf"
| "negative NaN = NaN"

text \<open>\<^verbatim>\<open>np.exp\<close>, taken as the correctly rounded exponential; on overflow numpy warns and
  yields an infinity.\<close>

fun np_exp :: "double \<Rightarrow> double" where
  "np_exp (Finite x) = to_double (exp x)"
| "np_exp PosInf = PosInf"
| "np_exp NegInf = Finite 0"
| "np_exp NaN = NaN"

text \<open>\<^verbatim>\<open>1 + y\<close> and \<^verbatim>\<open>1 / z\<close>; numpy warns on a division by zero and yields an infinity.\<close>

fun one_plus :: "double \<Rightarrow> double" where
  "one_plus (Finite y) = to_double (1 + y)"
| "one_plus PosInf = PosInf"
| "one_plus NegInf = NegInf"
| "one_plus NaN = NaN"

fun one_over :: "double \<Rightarrow> double" where
  "one_over (Finite z) = (if z = 0 then PosInf else to_double (1 / z))"
| "one_over PosInf = Finite 0"
| "one_over NegInf = Finite 0"
| "one_over NaN = NaN"

text \<open>The expression of the rescaling, innermost operation first.\<close>

definition scaled_score :: "double \<Rightarrow> double" where
  "scaled_score s = one_over (one_plus (np_exp (negative (scaled_down s))))"

text \<open>The order of the doubles other than NaN.\<close>

fun dle :: "double \<Rightarrow> double \<Rightarrow> bool" where
  "dle NaN b = False"
| "dle a NaN = False"
| "dle NegInf b = True"
| "dle a PosInf = True"
| "dle (Finite x) (Finite y) = (x \<le> y)"
| "dle a b = False"

section \<open>Auxiliary notions of the statements\<close>

text \<open>A failed item that reports an identifier conflict of a \<^verbatim>\<open>create\<close>.\<close>

definition is_conflict :: "bulk_item \<Rightarrow> bool" where
  "is_conflict e = (op_key e = ''create'' \<and> error_type e = version_conflict)"

text \<open>The store after some more requests.\<close>

definition sent :: "'f call list \<Rightarrow> 'f store \<Rightarrow> 'f store" where
  "sent cs st = st\<lparr>calls := calls st @ cs\<rparr>"

text \<open>For a backend that serves \<open>n\<close> matches in pages of \<open>p\<close> hits: the count at which
  the search may stop, and the number of pages it takes to reach it.\<close>

definition goal_count :: "int option \<Rightarrow> nat \<Rightarrow> nat" where
  "goal_count top_k n = (case top_k of None \<Rightarrow> n | Some t \<Rightarrow> min (nat t) n)"

definition pages_fetched :: "int option \<Rightarrow> nat \<Rightarrow> nat \<Rightarrow> nat" where
  "pages_fetched top_k n p = max 1 ((goal_count top_k n + p - 1) div p)"

section \<open>Example collaborators, backends and inputs\<close>

text \<open>Concrete values at which the theorems below are instantiated; floats are
  integers here.\<close>

definition example_deps :: "int deps" where
  "example_deps =
     \<lparr>to_dict = (\<lambda>d. (''id'', JStr (doc_id d)) # doc_fields d),
      from_dict = (\<lambda>data. Inr \<lparr>doc_id = (case map_of data ''id'' of Some (JStr s) \<Rightarrow> s | _ \<Rightarrow> []),
                                 score = (case map_of data ''score'' of Some (JFloat x) \<Rightarrow> Some x | _ \<Rightarrow> None),
                                 doc_fields = data\<rparr>),
      normalize_filters = (\<lambda>f. Inr (JDict f)),
      scale = (\<lambda>x. x)\<rparr>"

definition rejecting_deps :: "int deps" where
  "rejecting_deps = example_deps\<lparr>normalize_filters := (\<lambda>f. Inl (FilterError ''malformed''))\<rparr>"

definition ready :: "int store" where
  "ready = \<lparr>initialized = True, clients_created = True, calls = []\<rparr>"

definition fresh :: "int store" where
  "fresh = \<lparr>initialized = False, clients_created = False, calls = []\<rparr>"

definition paged_backend :: "'f hit list \<Rightarrow> nat \<Rightarrow> 'f backend" where
  "paged_backend corpus p =
     \<lparr>info_ok = True, index_exists = False,
      search_resp = (\<lambda>from_off kwargs.
         Inr \<lparr>hits = take p (drop from_off corpus), total = int (length corpus)\<rparr>),
      bulk_resp = (\<lambda>acts. Inr (length acts, []))\<rparr>"

definition conflict_item :: "string \<Rightarrow> bulk_item" where
  "conflict_item i =
     \<lparr>op_key = ''create'', item_id = i, status = 409, error_type = version_conflict\<rparr>"

definition existing_backend :: "string list \<Rightarrow> int backend" where
  "existing_backend ids =
     \<lparr>info_ok = True, index_exists = True,
      search_resp = (\<lambda>from_off kwargs. Inr \<lparr>hits = [], total = 0\<rparr>),
      bulk_resp = (\<lambda>acts.
         Inr (length (filter (\<lambda>a. \<not> (a_op_type a = ''create'' \<and> a_id a \<in> set ids)) acts),
              map (\<lambda>a. conflict_item (a_id a))
                (filter (\<lambda>a. a_op_type a = ''create'' \<and> a_id a \<in> set ids) acts)))\<rparr>"

definition example_doc :: "string \<Rightarrow> int document" where
  "example_doc i = \<lparr>doc_id = i, score = None, doc_fields = [(''content'', JStr ''text'')]\<rparr>"

definition example_hit :: "nat \<Rightarrow> int hit" where
  "example_hit i = \<lparr>source = [(''rank'', JInt (int i))], highlight = None, hit_score = JNull\<rparr>"

definition example_result :: "nat \<Rightarrow> int document" where
  "example_result i =
     \<lparr>doc_id = [], score = None, doc_fields = [(''rank'', JInt (int i)), (''score'', JNull)]\<rparr>"



definition stalled_backend :: "int backend" where
  "stalled_backend =
     \<lparr>info_ok = True, index_exists = True,
      search_resp = (\<lambda>from_off kwargs. Inr \<lparr>hits = [], total = 23\<rparr>),
      bulk_resp = (\<lambda>acts. Inr (0, []))\<rparr>"

definition example_request :: "int search_kwargs" where
  "example_request =
     \<lparr>kw_size = None, kw_query = None,
      kw_knn = Some \<lparr>knn_field = ''embedding'', knn_query_vector = [1, 2],
                     knn_k = 5, knn_num_candidates = 50, knn_filter = None\<rparr>\<rparr>"

definition double_deps :: "double deps" where
  "double_deps =
     \<lparr>to_dict = (\<lambda>d. doc_fields d),
      from_dict = (\<lambda>data. Inr \<lparr>doc_id = [],
                                 score = (case map_of data ''score'' of
                                            Some (JFloat x) \<Rightarrow> Some x | _ \<Rightarrow> None),
                                 doc_fields = data\<rparr>),
      normalize_filters = (\<lambda>f. Inr (JDict f)),
      scale = scaled_score\<rparr>"

definition scored_backend :: "double backend" where
  "scored_backend =
     \<lparr>info_ok = True, index_exists = True,
      search_resp = (\<lambda>from_off kwargs.
         Inr \<lparr>hits = [\<lparr>source = [], highlight = None, hit_score = JFloat (Finite 1000)\<rparr>,
                     \<lparr>source = [], highlight = None, hit_score = JNull\<rparr>],
              total = 2\<rparr>),
      bulk_resp = (\<lambda>acts. Inr (0, []))\<rparr>"

definition scored_store :: "double store" where
  "scored_store = \<lparr>initialized = True, clients_created = True, calls = []\<rparr>"

definition unreachable_backend :: "int backend" where
  "unreachable_backend =
     \<lparr>info_ok = False, index_exists = False,
      search_resp = (\<lambda>from_off kwargs. Inl TransportError),
      bulk_resp = (\<lambda>acts. Inl TransportError)\<rparr>"

section \<open>Basic facts\<close>

lemma ensure_initialized_ready: "initialized st \<Longrightarrow> ensure_initialized be st = (Inr (), st)"
  by (simp add: ensure_initialized_def)

lemma send_calls: "calls (send c st) = calls st @ [c]"
  by (simp add: send_def)

lemma send_initialized: "initialized (send c st) = initialized st"
  by (simp add: send_def)

lemma deserialize_hits_length:
  "deserialize_hits dp hs = Inr ds \<Longrightarrow> length ds = length hs"
  by (induction hs arbitrary: ds) (auto split: sum.splits)

lemma deserialize_hits_take:
  "deserialize_hits dp hs = Inr ds \<Longrightarrow> deserialize_hits dp (take k hs) = Inr (take k ds)"
proof (induction hs arbitrary: ds k)
  case Nil
  then show ?case by simp
next
  case (Cons h hs)
  then show ?case by (cases k) (auto split: sum.splits)
qed

lemma deserialize_hits_drop:
  "deserialize_hits dp hs = Inr ds \<Longrightarrow> deserialize_hits dp (drop k hs) = Inr (drop k ds)"
proof (induction hs arbitrary: ds k)
  case Nil
  then show ?case by simp
next
  case (Cons h hs)
  then show ?case by (cases k) (auto split: sum.splits)
qed

lemma ceil_div_ge: "0 < p \<Longrightarrow> g \<le> ((g + p - 1) div p) * (p::nat)"
proof -
  assume p: "0 < p"
  have "g + p - 1 < ((g + p - 1) div p) * p + p"
    using p by (metis div_mult_mod_eq mod_less_divisor nat_add_left_cancel_less)
  then show ?thesis using p by linarith
qed

lemma below_ceil_div: "0 < p \<Longrightarrow> Suc j < (g + p - 1) div p \<Longrightarrow> Suc j * p < (g::nat)"
proof -
  assume p: "0 < p" and j: "Suc j < (g + p - 1) div p"
  then have "Suc (Suc j) \<le> (g + p - 1) div p" by simp
  then have "Suc (Suc j) * p \<le> ((g + p - 1) div p) * p" by (rule mult_le_mono1)
  also have "\<dots> \<le> g + p - 1" by simp
  finally have "Suc j * p + p \<le> g + p - 1" by simp
  then show ?thesis using p by linarith
qed

lemma sent_send: "sent cs (send c st) = sent (c # cs) st"
  by (simp add: sent_def send_def)

lemma send_sent: "send c st = sent [c] st"
  by (simp add: sent_def send_def)

lemma search_loop_step:
  assumes "client_of m be st = (Inr (), st1)"
    and "search_resp be from_off kwargs = Inr res"
    and "deserialize_hits dp (hits res) = Inr ds"
  shows "search_loop dp be m kwargs top_k documents from_off st =
           (if stops top_k (length (documents @ ds)) (total res)
            then Some (Inr (documents @ ds), send (Search from_off kwargs) st1)
            else search_loop dp be m kwargs top_k (documents @ ds) (length (documents @ ds))
                   (send (Search from_off kwargs) st1))"
  by (subst search_loop.simps) (simp add: assms Let_def)

lemma ensure_initialized_post:
  "ensure_initialized be st = (Inr u, st0) \<Longrightarrow> initialized st0"
  by (auto simp: ensure_initialized_def Let_def send_def split: if_splits)

lemma goal_count_le: "goal_count top_k n \<le> n"
  by (simp add: goal_count_def split: option.splits)

lemma pages_fetched_pos: "0 < pages_fetched top_k n p"
  by (simp add: pages_fetched_def)

lemma pages_fetched_None_covers: "0 < p \<Longrightarrow> n \<le> pages_fetched None n p * p"
proof -
  assume p: "0 < p"
  have "n \<le> ((n + p - 1) div p) * p" using p by (rule ceil_div_ge)
  also have "\<dots> \<le> pages_fetched None n p * p"
    by (simp add: pages_fetched_def goal_count_def)
  finally show ?thesis .
qed

lemma stops_iff: "stops top_k c (int n) \<longleftrightarrow> goal_count top_k n \<le> c"
  by (auto simp: stops_def goal_count_def split: option.splits)

lemma example_hits_deserialize:
  "deserialize_hits example_deps (map example_hit xs) = Inr (map example_result xs)"
  by (induction xs)
    (simp_all add: deserialize_document_def deserialize_data_def example_hit_def
       example_result_def example_deps_def)


lemma client_of_ready:
  "initialized st \<Longrightarrow> clients_created st \<Longrightarrow> client_of m be st = (Inr (), st)"
  by (cases m) (simp_all add: ensure_initialized_def)

lemma send_clients_created: "clients_created (send c st) = clients_created st"
  by (simp add: send_def)

section \<open>The paginated search executor\<close>

text \<open>The loop on a backend that serves a fixed result list in pages, from any page on.\<close>

lemma paged_loop:
  fixes corpus :: "'f hit list"
  assumes resp: "\<And>from_off. search_resp be from_off kwargs =
                    Inr \<lparr>hits = take p (drop from_off corpus), total = int (length corpus)\<rparr>"
    and des: "deserialize_hits dp corpus = Inr docs"
    and p: "0 < p"
  shows "initialized st \<Longrightarrow> j < pages_fetched top_k (length corpus) p \<Longrightarrow>
         search_loop dp be Sync kwargs top_k (take (j * p) docs) (j * p) st =
           Some (Inr (take (pages_fetched top_k (length corpus) p * p) docs),
                 sent (map (\<lambda>i. Search (i * p) kwargs)
                         [j..<pages_fetched top_k (length corpus) p]) st)"
proof (induction "pages_fetched top_k (length corpus) p - j" arbitrary: j st)
  case 0
  then show ?case by simp
next
  case (Suc d)
  let ?n = "length corpus"
  let ?J = "pages_fetched top_k ?n p"
  let ?g = "goal_count top_k ?n"
  have len: "length docs = ?n" using des by (rule deserialize_hits_length)
  have g_le: "?g \<le> ?n" by (simp add: goal_count_def split: option.splits)
  let ?res = "\<lparr>hits = take p (drop (j * p) corpus), total = int ?n\<rparr>"
  have page: "deserialize_hits dp (hits ?res) = Inr (take p (drop (j * p) docs))"
    using des by (simp add: deserialize_hits_take deserialize_hits_drop)
  have acc: "take (j * p) docs @ take p (drop (j * p) docs) = take (Suc j * p) docs"
    using take_add[of "j * p" p docs] by (simp add: add.commute)
  have client: "client_of Sync be st = (Inr (), st)"
    using Suc.prems(1) by (simp add: ensure_initialized_ready)
  let ?st2 = "send (Search (j * p) kwargs) st"
  have init2: "initialized ?st2" using Suc.prems(1) by (simp add: send_initialized)
  have step: "search_loop dp be Sync kwargs top_k (take (j * p) docs) (j * p) st =
           (if stops top_k (length (take (Suc j * p) docs)) (int ?n)
            then Some (Inr (take (Suc j * p) docs), ?st2)
            else search_loop dp be Sync kwargs top_k (take (Suc j * p) docs)
                   (length (take (Suc j * p) docs)) ?st2)"
    using search_loop_step[OF client resp page, of top_k "take (j * p) docs"]
    by (simp only: acc page.simps)
  show ?case
  proof (cases "Suc j < ?J")
    case True
    then have J: "?J = (?g + p - 1) div p" by (simp add: pages_fetched_def max_def split: if_splits)
    have lt: "Suc j * p < ?g" using True p unfolding J by (intro below_ceil_div)
    then have lt_n: "Suc j * p < ?n" using g_le by linarith
    have lenacc: "length (take (Suc j * p) docs) = Suc j * p" using lt_n len by simp
    have nostop: "stops top_k (Suc j * p) (int ?n) = False"
      unfolding stops_iff using lt by simp
    have d: "d = ?J - Suc j" using Suc.hyps(2) by simp
    have ih: "search_loop dp be Sync kwargs top_k (take (Suc j * p) docs) (Suc j * p) ?st2 =
           Some (Inr (take (?J * p) docs),
                 sent (map (\<lambda>i. Search (i * p) kwargs) [Suc j..<?J]) ?st2)"
      using Suc.hyps(1)[OF d init2 True] .
    have upt: "[j..<?J] = j # [Suc j..<?J]" using True by (simp add: upt_conv_Cons)
    show ?thesis
      by (simp only: step nostop if_False lenacc ih upt sent_send list.map)
  next
    case False
    then have Jeq: "?J = Suc j" using Suc.prems(2) by simp
    have ge: "?g \<le> ?J * p"
    proof (cases "?J = (?g + p - 1) div p")
      case True
      show ?thesis using ceil_div_ge[OF p, of ?g] True by simp
    next
      case False
      then have "(?g + p - 1) div p = 0" and "?J = 1"
        by (auto simp: pages_fetched_def max_def split: if_splits)
      then have "?g + p - 1 < p" using p by (simp add: div_eq_0_iff)
      then show ?thesis using \<open>?J = 1\<close> p by simp
    qed
    have "?g \<le> min ?n (Suc j * p)" using ge g_le Jeq by simp
    then have stop: "stops top_k (length (take (Suc j * p) docs)) (int ?n) = True"
      unfolding stops_iff using len by (simp add: min.commute)
    have "[j..<?J] = [j]" using Jeq by simp
    then show ?thesis
      by (simp only: step stop if_True Jeq send_sent list.map)
  qed
qed

text \<open>
  Claim C1, as amended. The target count of a search is its \<^verbatim>\<open>size\<close>, else the \<^verbatim>\<open>k\<close> of its
  \<^verbatim>\<open>knn\<close>, else none. The search starts at offset 0, appends the hits of each page in
  backend order, continues at the offset given by the number of documents accumulated, and
  stops as soon as that number reaches the target count or the total reported by the
  backend. On a backend that serves its \<open>n\<close> matches in pages of \<open>p > 0\<close> hits the search
  returns: it fetches \<open>pages_fetched\<close> pages at the offsets \<open>0, p, 2p, ...\<close> and returns
  the documents of these pages in order; the stop condition holds of the count returned
  and of no count before it; without a target count the whole result list is returned.
  With \<open>n = 23\<close> and \<open>p = 10\<close> these are three fetches at the offsets 0, 10 and 20 and 23
  documents. The search need not return on other backends.
\<close>

theorem paginated_search:
  fixes corpus :: "'f hit list"
  assumes resp: "\<And>from_off. search_resp be from_off kwargs =
                    Inr \<lparr>hits = take p (drop from_off corpus), total = int (length corpus)\<rparr>"
    and des: "deserialize_hits dp corpus = Inr docs"
    and p: "0 < p"
    and init: "ensure_initialized be st = (Inr (), st0)"
    and target: "target = (case kw_size kwargs of
                             Some n \<Rightarrow> Some n
                           | None \<Rightarrow> (case kw_knn kwargs of
                                        Some kn \<Rightarrow> Some (knn_k kn) | None \<Rightarrow> None))"
  shows "search_documents dp be kwargs st =
           Some (Inr (take (pages_fetched target (length corpus) p * p) docs),
                 sent (map (\<lambda>i. Search (i * p) kwargs)
                         [0..<pages_fetched target (length corpus) p]) st0)
       \<and> (target = None \<longrightarrow>
            take (pages_fetched target (length corpus) p * p) docs = docs)
       \<and> stops target (length (take (pages_fetched target (length corpus) p * p) docs))
            (int (length corpus))
       \<and> (\<forall>j. 0 < j \<and> j < pages_fetched target (length corpus) p \<longrightarrow>
            j * p < length corpus \<and> \<not> stops target (j * p) (int (length corpus)))"
proof -
  let ?n = "length corpus"
  let ?J = "pages_fetched target ?n p"
  let ?res = "\<lparr>hits = take p (drop 0 corpus), total = int ?n\<rparr>"
  have top: "top_k_of kwargs = target" by (simp add: top_k_of_def target)
  have init0: "initialized st0" using init by (rule ensure_initialized_post)
  have c1: "client_of Sync be st = (Inr (), st0)" using init by simp
  have c2: "client_of Sync be st0 = (Inr (), st0)" using init0 by (simp add: ensure_initialized_ready)
  have page: "deserialize_hits dp (hits ?res) = Inr (take p docs)"
    using des by (simp add: deserialize_hits_take)
  have "search_loop dp be Sync kwargs target [] 0 st =
        search_loop dp be Sync kwargs target [] 0 st0"
    by (simp only: search_loop_step[OF c1 resp page] search_loop_step[OF c2 resp page])
  also have "\<dots> = search_loop dp be Sync kwargs target (take (0 * p) docs) (0 * p) st0"
    by simp
  also have "\<dots> = Some (Inr (take (?J * p) docs),
                 sent (map (\<lambda>i. Search (i * p) kwargs) [0..<?J]) st0)"
    using resp des p init0 pages_fetched_pos by (rule paged_loop)
  finally have main: "search_documents dp be kwargs st =
           Some (Inr (take (?J * p) docs), sent (map (\<lambda>i. Search (i * p) kwargs) [0..<?J]) st0)"
    by (simp only: search_documents_def top)
  have len: "length docs = ?n" using des by (rule deserialize_hits_length)
  have whole: "target = None \<longrightarrow> take (?J * p) docs = docs"
    using pages_fetched_None_covers[OF p, of ?n] len by auto
  have "(goal_count target ?n + p - 1) div p \<le> ?J" by (simp add: pages_fetched_def)
  then have "((goal_count target ?n + p - 1) div p) * p \<le> ?J * p" by (rule mult_le_mono1)
  with ceil_div_ge[OF p, of "goal_count target ?n"]
  have reach: "goal_count target ?n \<le> ?J * p" by (rule le_trans)
  have stop: "stops target (length (take (?J * p) docs)) (int ?n)"
    unfolding stops_iff using reach goal_count_le[of target ?n] len by simp
  have before: "\<forall>j. 0 < j \<and> j < ?J \<longrightarrow> j * p < ?n \<and> \<not> stops target (j * p) (int ?n)"
  proof (intro allI impI, elim conjE)
    fix j :: nat
    assume j: "0 < j" "j < ?J"
    then obtain i where i: "j = Suc i" by (cases j) auto
    from j have J: "?J = (goal_count target ?n + p - 1) div p"
      by (simp add: pages_fetched_def max_def split: if_splits)
    have "Suc i * p < goal_count target ?n"
      using j(2) p unfolding J i by (intro below_ceil_div)
    then show "j * p < ?n \<and> \<not> stops target (j * p) (int ?n)"
      unfolding stops_iff i using goal_count_le[of target ?n] by linarith
  qed
  from main whole stop before show ?thesis by blast
qed

theorem paginated_search_witness:
  "0 < (10::nat)
   \<and> ensure_initialized (paged_backend (map example_hit [0..<23]) 10) ready = (Inr (), ready)
   \<and> search_documents example_deps (paged_backend (map example_hit [0..<23]) 10)
        (filter_kwargs None) ready =
       Some (Inr (map example_result [0..<23]),
             sent [Search 0 (filter_kwargs None), Search 10 (filter_kwargs None),
                   Search 20 (filter_kwargs None)] ready)
   \<and> length (map example_result [0..<23]) = 23
   \<and> search_documents example_deps (paged_backend (map example_hit [0..<23]) 10)
        (bm25_kwargs ''text'' ''AUTO'' 10 None) ready =
       Some (Inr (map example_result [0..<10]),
             sent [Search 0 (bm25_kwargs ''text'' ''AUTO'' 10 None)] ready)
   \<and> search_documents example_deps (paged_backend (map example_hit [0..<23]) 10)
        (knn_kwargs [1, 2] 15 150 None) ready =
       Some (Inr (map example_result [0..<20]),
             sent [Search 0 (knn_kwargs [1, 2] 15 150 None),
                   Search 10 (knn_kwargs [1, 2] 15 150 None)] ready)"
proof -
  let ?be = "paged_backend (map example_hit [0..<23]) 10"
  have resp: "\<And>kwargs from_off. search_resp ?be from_off kwargs =
               Inr \<lparr>hits = take 10 (drop from_off (map example_hit [0..<23])),
                    total = int (length (map example_hit [0..<23]))\<rparr>"
    by (simp add: paged_backend_def)
  have p: "0 < (10::nat)" by simp
  have init: "ensure_initialized ?be ready = (Inr (), ready)"
    by (simp add: ensure_initialized_def ready_def)
  have t1: "None = (case kw_size (filter_kwargs (None :: int json option)) of
                      Some n \<Rightarrow> Some n
                    | None \<Rightarrow> (case kw_knn (filter_kwargs (None :: int json option)) of
                                 Some kn \<Rightarrow> Some (knn_k kn) | None \<Rightarrow> None))"
    by (simp add: filter_kwargs_def)
  have t2: "Some 10 = (case kw_size (bm25_kwargs ''text'' ''AUTO'' 10 (None :: int json option)) of
                      Some n \<Rightarrow> Some n
                    | None \<Rightarrow> (case kw_knn (bm25_kwargs ''text'' ''AUTO'' 10
                                   (None :: int json option)) of
                                 Some kn \<Rightarrow> Some (knn_k kn) | None \<Rightarrow> None))"
    by (simp add: bm25_kwargs_def)
  have t3: "Some 15 = (case kw_size (knn_kwargs [1, 2 :: int] 15 150 None) of
                      Some n \<Rightarrow> Some n
                    | None \<Rightarrow> (case kw_knn (knn_kwargs [1, 2 :: int] 15 150 None) of
                                 Some kn \<Rightarrow> Some (knn_k kn) | None \<Rightarrow> None))"
    by (simp add: knn_kwargs_def)
  have pf: "pages_fetched None 23 10 = 3" "pages_fetched (Some 10) 23 10 = 1"
    "pages_fetched (Some 15) 23 10 = 2"
    by (simp_all add: pages_fetched_def goal_count_def)
  have upt: "[0..<3] = [0, 1, 2]" "[0..<2] = [0, 1]" "[0..<1] = [0]" by (simp_all add: upt_rec)
  have tk: "take 10 (map example_result [0..<23]) = map example_result [0..<10]"
    "take 20 (map example_result [0..<23]) = map example_result [0..<20]"
    by (simp_all add: take_map)
  from paginated_search[OF resp example_hits_deserialize p init t1]
  have a: "search_documents example_deps ?be (filter_kwargs None) ready =
       Some (Inr (map example_result [0..<23]),
             sent [Search 0 (filter_kwargs None), Search 10 (filter_kwargs None),
                   Search 20 (filter_kwargs None)] ready)"
    by (simp add: pf upt)
  from paginated_search[OF resp example_hits_deserialize p init t2]
  have b: "search_documents example_deps ?be (bm25_kwargs ''text'' ''AUTO'' 10 None) ready =
       Some (Inr (map example_result [0..<10]),
             sent [Search 0 (bm25_kwargs ''text'' ''AUTO'' 10 None)] ready)"
    by (simp add: pf upt tk)
  from paginated_search[OF resp example_hits_deserialize p init t3]
  have c: "search_documents example_deps ?be (knn_kwargs [1, 2] 15 150 None) ready =
       Some (Inr (map example_result [0..<20]),
             sent [Search 0 (knn_kwargs [1, 2] 15 150 None),
                   Search 10 (knn_kwargs [1, 2] 15 150 None)] ready)"
    by (simp add: pf upt tk)
  from a b c p init show ?thesis by simp
qed

text \<open>The search returns because such a backend serves a non-empty page at every offset
  below its total. A backend that reports a total it never serves keeps the loop running:
  the offset stays where it is.\<close>

lemma stalled_loop_never_returns:
  assumes ret: "search_loop dp be m kwargs top_k documents from_off st = Some y"
  shows "(\<forall>f. search_resp be f kwargs = Inr \<lparr>hits = [], total = t\<rparr>) \<longrightarrow>
         \<not> stops top_k (length documents) t \<longrightarrow>
         initialized st \<longrightarrow> clients_created st \<longrightarrow> False"
proof (rule search_loop.raw_induct
    [where P = "\<lambda>dp be m kwargs top_k documents from_off st y.
       (\<forall>f. search_resp be f kwargs = Inr \<lparr>hits = [], total = t\<rparr>) \<longrightarrow>
       \<not> stops top_k (length documents) t \<longrightarrow>
         initialized st \<longrightarrow> clients_created st \<longrightarrow> False", OF _ ret])
  fix loop dp be m kwargs top_k documents from_off st y
  assume ih: "\<And>dp be m kwargs top_k documents from_off st y.
        loop dp be m kwargs top_k documents from_off st = Some y \<Longrightarrow>
        (\<forall>f. search_resp be f kwargs = Inr \<lparr>hits = [], total = t\<rparr>) \<longrightarrow>
        \<not> stops top_k (length documents) t \<longrightarrow>
         initialized st \<longrightarrow> clients_created st \<longrightarrow> False"
    and body: "(case client_of m be st of (Inl e, st1) \<Rightarrow> Some (Inl e, st1)
      | (Inr u, st1) \<Rightarrow>
          let st2 = send (Search from_off kwargs) st1
          in case search_resp be from_off kwargs of
             Inl e \<Rightarrow> Some (Inl e, st2)
             | Inr res \<Rightarrow>
                 case deserialize_hits dp (hits res) of
                 Inl e \<Rightarrow> Some (Inl e, st2)
                 | Inr ds \<Rightarrow>
                     let documents1 = documents @ ds;
                         from1 = length documents1
                     in if stops top_k from1 (total res)
                        then Some (Inr documents1, st2)
                        else loop dp be m kwargs top_k documents1 from1 st2) =
     Some y"
  show "(\<forall>f. search_resp be f kwargs = Inr \<lparr>hits = [], total = t\<rparr>) \<longrightarrow>
       \<not> stops top_k (length documents) t \<longrightarrow>
         initialized st \<longrightarrow> clients_created st \<longrightarrow> False"
  proof (intro impI)
    assume r: "\<forall>f. search_resp be f kwargs = Inr \<lparr>hits = [], total = t\<rparr>"
      and n: "\<not> stops top_k (length documents) t"
      and i: "initialized st" and c: "clients_created st"
    let ?st2 = "send (Search from_off kwargs) st"
    have cm: "client_of m be st = (Inr (), st)" using i c by (rule client_of_ready)
    have "loop dp be m kwargs top_k documents (length documents) ?st2 = Some y"
      using body cm r n by (simp add: Let_def)
    from ih[OF this] r n i c show False
      by (simp add: send_initialized send_clients_created)
  qed
qed

lemma stalled_search_never_returns:
  assumes "\<And>f. search_resp be f kwargs = Inr \<lparr>hits = [], total = t\<rparr>"
    and "\<not> stops (top_k_of kwargs) 0 t"
    and "initialized st" and "clients_created st"
  shows "search_documents dp be kwargs st = None"
proof (cases "search_documents dp be kwargs st")
  case None
  then show ?thesis .
next
  case (Some y)
  then have "search_loop dp be Sync kwargs (top_k_of kwargs) [] 0 st = Some y"
    by (simp add: search_documents_def)
  from stalled_loop_never_returns[OF this, of t] assms have False by simp
  then show ?thesis ..
qed

text \<open>
  Claim C1, as stated, fails: a search without target count on a backend that reports 23
  matches and serves none of them never returns.
\<close>

theorem stalled_search_does_not_return:
  "search_documents example_deps stalled_backend (filter_kwargs None) ready = None"
  by (rule stalled_search_never_returns[where t = 23])
    (simp_all add: stalled_backend_def stops_def top_k_of_def filter_kwargs_def ready_def)

text \<open>On a store whose clients exist and whose index is ensured, the two executors are
  the same function: whatever one returns the other returns, and neither returns when the
  other does not.\<close>

lemma search_loop_mode_transfer:
  assumes "search_loop dp be m kwargs top_k documents from_off st = Some y"
  shows "initialized st \<longrightarrow> clients_created st \<longrightarrow>
         search_loop dp be m' kwargs top_k documents from_off st = Some y"
proof (rule search_loop.raw_induct
    [where P = "\<lambda>dp be m kwargs top_k documents from_off st y.
       initialized st \<longrightarrow> clients_created st \<longrightarrow>
       search_loop dp be m' kwargs top_k documents from_off st = Some y", OF _ assms])
  fix loop dp be m kwargs top_k documents from_off st y
  assume 1: "\<And>dp be m kwargs top_k documents from_off st y.
        loop dp be m kwargs top_k documents from_off st = Some y \<Longrightarrow>
        initialized st \<longrightarrow> clients_created st \<longrightarrow>
        search_loop dp be m' kwargs top_k documents from_off st = Some y"
    "(case client_of m be st of (Inl e, st1) \<Rightarrow> Some (Inl e, st1)
      | (Inr u, st1) \<Rightarrow>
          let st2 = send (Search from_off kwargs) st1
          in case search_resp be from_off kwargs of
             Inl e \<Rightarrow> Some (Inl e, st2)
             | Inr res \<Rightarrow>
                 case deserialize_hits dp (hits res) of
                 Inl e \<Rightarrow> Some (Inl e, st2)
                 | Inr ds \<Rightarrow>
                     let documents1 = documents @ ds;
                         from1 = length documents1
                     in if stops top_k from1 (total res)
                        then Some (Inr documents1, st2)
                        else loop dp be m kwargs top_k documents1 from1 st2) =
     Some y"
  show "initialized st \<longrightarrow> clients_created st \<longrightarrow>
       search_loop dp be m' kwargs top_k documents from_off st = Some y"
  proof (intro impI)
    assume i: "initialized st" and c: "clients_created st"
    have cm: "client_of m be st = (Inr (), st)" and cm': "client_of m' be st = (Inr (), st)"
      using i c by (simp_all add: client_of_ready)
    let ?st2 = "send (Search from_off kwargs) st"
    have i2: "initialized ?st2" and c2: "clients_created ?st2"
      using i c by (simp_all add: send_initialized send_clients_created)
    show "search_loop dp be m' kwargs top_k documents from_off st = Some y"
    proof (cases "search_resp be from_off kwargs")
      case (Inl e)
      with 1(2) cm cm' show ?thesis
        by (subst search_loop.simps) (simp add: Let_def)
    next
      case (Inr res)
      note res = this
      show ?thesis
      proof (cases "deserialize_hits dp (hits res)")
        case (Inl e)
        with 1(2) cm cm' res show ?thesis
          by (subst search_loop.simps) (simp add: Let_def)
      next
        case (Inr ds)
        show ?thesis
        proof (cases "stops top_k (length (documents @ ds)) (total res)")
          case True
          with 1(2) cm cm' res Inr show ?thesis
            by (subst search_loop.simps) (simp add: Let_def)
        next
          case False
          with 1(2) cm res Inr
          have "loop dp be m kwargs top_k (documents @ ds) (length (documents @ ds)) ?st2 = Some y"
            by (simp add: Let_def)
          from 1(1)[OF this] i2 c2
          have "search_loop dp be m' kwargs top_k (documents @ ds) (length (documents @ ds)) ?st2 = Some y"
            by simp
          with False cm' res Inr show ?thesis
            by (subst search_loop.simps) (simp add: Let_def)
        qed
      qed
    qed
  qed
qed

lemma search_documents_modes_agree:
  assumes "initialized st" and "clients_created st"
  shows "search_documents_async dp be kwargs st = search_documents dp be kwargs st"
proof (cases "search_documents dp be kwargs st")
  case None
  show ?thesis
  proof (cases "search_documents_async dp be kwargs st")
    case None
    with \<open>search_documents dp be kwargs st = None\<close> show ?thesis by simp
  next
    case (Some y)
    then have "search_documents dp be kwargs st = Some y"
      unfolding search_documents_def search_documents_async_def
      using search_loop_mode_transfer[of dp be Async kwargs "top_k_of kwargs" "[]" 0 st y Sync] assms
      by simp
    with None show ?thesis by simp
  qed
next
  case (Some y)
  then have "search_documents_async dp be kwargs st = Some y"
    unfolding search_documents_def search_documents_async_def
    using search_loop_mode_transfer[of dp be Sync kwargs "top_k_of kwargs" "[]" 0 st y Async] assms
    by simp
  with Some show ?thesis by simp
qed

section \<open>Hits and documents\<close>







section \<open>Filtering and vector retrieval\<close>

text \<open>
  Claim C7. A non-empty filter whose root has neither the key \<^verbatim>\<open>operator\<close> nor the key
  \<^verbatim>\<open>conditions\<close> makes \<^verbatim>\<open>filter_documents\<close> and \<^verbatim>\<open>filter_documents_async\<close> raise
  \<^verbatim>\<open>ValueError\<close> with the store as it was: no request has been sent.
\<close>

theorem invalid_filter_rejected:
  assumes "f \<noteq> []" and "\<not> has_key f ''operator''" and "\<not> has_key f ''conditions''"
  shows "filter_documents dp be (Some f) st = Some (Inl (ValueError invalid_filter_msg), st)
       \<and> filter_documents_async dp be (Some f) st =
           Some (Inl (ValueError invalid_filter_msg), st)"
  using assms by (simp add: filter_documents_def filter_documents_async_def invalid_filter_def)

theorem invalid_filter_rejected_witness:
  "[(''field'', JStr ''meta.name'')] \<noteq> ([] :: int dict)
   \<and> \<not> has_key [(''field'', JStr ''meta.name'') :: string \<times> int json] ''operator''
   \<and> \<not> has_key [(''field'', JStr ''meta.name'') :: string \<times> int json] ''conditions''
   \<and> filter_documents example_deps (paged_backend [] 10)
         (Some [(''field'', JStr ''meta.name'')]) fresh =
       Some (Inl (ValueError invalid_filter_msg), fresh)
   \<and> filter_documents_async example_deps (paged_backend [] 10)
         (Some [(''field'', JStr ''meta.name'')]) fresh =
       Some (Inl (ValueError invalid_filter_msg), fresh)"
proof -
  have a: "[(''field'', JStr ''meta.name'')] \<noteq> ([] :: int dict)" by simp
  have b: "\<not> has_key [(''field'', JStr ''meta.name'') :: string \<times> int json] ''operator''"
    by (simp add: has_key_def)
  have c: "\<not> has_key [(''field'', JStr ''meta.name'') :: string \<times> int json] ''conditions''"
    by (simp add: has_key_def)
  show ?thesis
    using invalid_filter_rejected[OF a b c, of example_deps "paged_backend [] 10" fresh] a b c
    by simp
qed

text \<open>The requests of a search that returns: after the requests of the initialization, one
  \<^verbatim>\<open>search\<close> per page, each with the keyword arguments of the call, the first at
  offset 0.\<close>

lemma ensure_initialized_clients:
  "ensure_initialized be st = (Inr u, st1) \<Longrightarrow> initialized st \<longrightarrow> clients_created st \<Longrightarrow>
   clients_created st1"
  by (auto simp: ensure_initialized_def Let_def send_def split: if_splits)

lemma client_of_again:
  "client_of m be st = (Inr u, st1) \<Longrightarrow> client_of m be (send c st1) = (Inr (), send c st1)"
proof (cases m)
  case Sync
  assume "client_of m be st = (Inr u, st1)"
  with Sync have "initialized st1" by (auto dest: ensure_initialized_post)
  with Sync show ?thesis by (simp add: ensure_initialized_ready send_initialized)
next
  case Async
  assume "client_of m be st = (Inr u, st1)"
  with Async show ?thesis by (auto simp: send_clients_created split: if_splits)
qed

lemma search_loop_calls:
  assumes ret: "search_loop dp be m kwargs top_k documents from_off st = Some y"
  shows "\<forall>st1. client_of m be st = (Inr (), st1) \<longrightarrow>
           (\<exists>offs. calls (snd y) = calls st1 @ map (\<lambda>off. Search off kwargs) (from_off # offs))"
proof (rule search_loop.raw_induct
    [where P = "\<lambda>dp be m kwargs top_k documents from_off st y.
       \<forall>st1. client_of m be st = (Inr (), st1) \<longrightarrow>
           (\<exists>offs. calls (snd y) = calls st1 @ map (\<lambda>off. Search off kwargs) (from_off # offs))",
     OF _ ret])
  fix loop dp be m kwargs top_k documents from_off st y
  assume ih: "\<And>dp be m kwargs top_k documents from_off st y.
        loop dp be m kwargs top_k documents from_off st = Some y \<Longrightarrow>
        \<forall>st1. client_of m be st = (Inr (), st1) \<longrightarrow>
           (\<exists>offs. calls (snd y) = calls st1 @ map (\<lambda>off. Search off kwargs) (from_off # offs))"
    and body: "(case client_of m be st of (Inl e, st1) \<Rightarrow> Some (Inl e, st1)
      | (Inr u, st1) \<Rightarrow>
          let st2 = send (Search from_off kwargs) st1
          in case search_resp be from_off kwargs of
             Inl e \<Rightarrow> Some (Inl e, st2)
             | Inr res \<Rightarrow>
                 case deserialize_hits dp (hits res) of
                 Inl e \<Rightarrow> Some (Inl e, st2)
                 | Inr ds \<Rightarrow>
                     let documents1 = documents @ ds;
                         from1 = length documents1
                     in if stops top_k from1 (total res)
                        then Some (Inr documents1, st2)
                        else loop dp be m kwargs top_k documents1 from1 st2) =
     Some y"
  show "\<forall>st1. client_of m be st = (Inr (), st1) \<longrightarrow>
           (\<exists>offs. calls (snd y) = calls st1 @ map (\<lambda>off. Search off kwargs) (from_off # offs))"
  proof (intro allI impI)
    fix st1
    assume c: "client_of m be st = (Inr (), st1)"
    let ?st2 = "send (Search from_off kwargs) st1"
    have one: "calls ?st2 = calls st1 @ map (\<lambda>off. Search off kwargs) (from_off # [])"
      by (simp add: send_def)
    show "\<exists>offs. calls (snd y) = calls st1 @ map (\<lambda>off. Search off kwargs) (from_off # offs)"
    proof (cases "search_resp be from_off kwargs")
      case (Inl e)
      with body c have "y = (Inl e, ?st2)" by (simp add: Let_def)
      with one show ?thesis by (metis snd_conv)
    next
      case (Inr res)
      note res = this
      show ?thesis
      proof (cases "deserialize_hits dp (hits res)")
        case (Inl e)
        with body c res have "y = (Inl e, ?st2)" by (simp add: Let_def)
        with one show ?thesis by (metis snd_conv)
      next
        case (Inr ds)
        show ?thesis
        proof (cases "stops top_k (length (documents @ ds)) (total res)")
          case True
          with body c res Inr have "y = (Inr (documents @ ds), ?st2)" by (simp add: Let_def)
          with one show ?thesis by (metis snd_conv)
        next
          case False
          with body c res Inr
          have "loop dp be m kwargs top_k (documents @ ds) (length (documents @ ds)) ?st2 = Some y"
            by (simp add: Let_def)
          from ih[OF this] client_of_again[OF c]
          obtain offs where "calls (snd y) =
              calls ?st2 @ map (\<lambda>off. Search off kwargs) (length (documents @ ds) # offs)"
            by blast
          then have "calls (snd y) = calls st1 @
              map (\<lambda>off. Search off kwargs) (from_off # length (documents @ ds) # offs)"
            by (simp add: send_def)
          then show ?thesis by blast
        qed
      qed
    qed
  qed
qed

text \<open>
  Claim C6. When no candidate pool is given, the vector retrieval is the search with the
  \<^verbatim>\<open>knn\<close> request whose \<^verbatim>\<open>num_candidates\<close> is \<^verbatim>\<open>top_k * 10\<close>, in both variants, and
  every \<^verbatim>\<open>search\<close> request it has sent when it returns, the first at offset 0, carries
  that request; with \<^verbatim>\<open>top_k = 5\<close> the pool is 50.
\<close>

theorem default_candidate_pool:
  assumes qe: "query_embedding \<noteq> []" and nf: "normalized dp filters = Inr nf"
    and init: "ensure_initialized be st = (Inr (), st1)"
    and cc: "clients_created st1"
    and req: "request =
       \<lparr>kw_size = None, kw_query = None,
        kw_knn = Some \<lparr>knn_field = ''embedding'', knn_query_vector = query_embedding,
                       knn_k = top_k, knn_num_candidates = top_k * 10, knn_filter = nf\<rparr>\<rparr>"
  shows "(embedding_retrieval dp be query_embedding filters top_k None st = Some (r, st2) \<longrightarrow>
            (\<exists>offs. calls st2 = calls st1 @ map (\<lambda>off. Search off request) (0 # offs)))
       \<and> (embedding_retrieval_async dp be query_embedding filters top_k None st = Some (r, st2) \<longrightarrow>
            (\<exists>offs. calls st2 = calls st1 @ map (\<lambda>off. Search off request) (0 # offs)))
       \<and> embedding_retrieval dp be query_embedding filters top_k None st =
           search_documents dp be request st
       \<and> embedding_retrieval_async dp be query_embedding filters top_k None st =
           search_documents_async dp be request st1"
proof -
  have k: "knn_kwargs query_embedding top_k (top_k * 10) nf = request"
    by (simp add: knn_kwargs_def req)
  have s: "embedding_retrieval dp be query_embedding filters top_k None st =
           search_documents dp be request st"
    using qe nf by (simp add: embedding_retrieval_def candidates_sync_def k)
  have a: "embedding_retrieval_async dp be query_embedding filters top_k None st =
           search_documents_async dp be request st1"
    using qe nf init by (simp add: embedding_retrieval_async_def candidates_async_def k)
  have c1: "client_of Sync be st = (Inr (), st1)" using init by simp
  have c2: "client_of Async be st1 = (Inr (), st1)" using cc by simp
  have 1: "embedding_retrieval dp be query_embedding filters top_k None st = Some (r, st2) \<longrightarrow>
            (\<exists>offs. calls st2 = calls st1 @ map (\<lambda>off. Search off request) (0 # offs))"
  proof
    assume "embedding_retrieval dp be query_embedding filters top_k None st = Some (r, st2)"
    then have "search_loop dp be Sync request (top_k_of request) [] 0 st = Some (r, st2)"
      by (simp add: s search_documents_def)
    from search_loop_calls[OF this] c1
    show "\<exists>offs. calls st2 = calls st1 @ map (\<lambda>off. Search off request) (0 # offs)"
      by simp
  qed
  have 2: "embedding_retrieval_async dp be query_embedding filters top_k None st = Some (r, st2) \<longrightarrow>
            (\<exists>offs. calls st2 = calls st1 @ map (\<lambda>off. Search off request) (0 # offs))"
  proof
    assume "embedding_retrieval_async dp be query_embedding filters top_k None st = Some (r, st2)"
    then have "search_loop dp be Async request (top_k_of request) [] 0 st1 = Some (r, st2)"
      by (simp add: a search_documents_async_def)
    from search_loop_calls[OF this] c2
    show "\<exists>offs. calls st2 = calls st1 @ map (\<lambda>off. Search off request) (0 # offs)"
      by simp
  qed
  from 1 2 s a show ?thesis by blast
qed

theorem default_candidate_pool_witness:
  "[1, 2] \<noteq> ([] :: int list)
   \<and> normalized example_deps None = Inr None
   \<and> ensure_initialized (paged_backend [] 10) fresh =
       (Inr (), \<lparr>initialized = True, clients_created = True,
                calls = [Info, IndicesExists, IndicesCreate]\<rparr>)
   \<and> embedding_retrieval example_deps (paged_backend [] 10) [1, 2] None 5 None fresh =
       Some (Inr [], \<lparr>initialized = True, clients_created = True,
                      calls = [Info, IndicesExists, IndicesCreate, Search 0 example_request]\<rparr>)
   \<and> embedding_retrieval_async example_deps (paged_backend [] 10) [1, 2] None 5 None fresh =
       Some (Inr [], \<lparr>initialized = True, clients_created = True,
                      calls = [Info, IndicesExists, IndicesCreate, Search 0 example_request]\<rparr>)
   \<and> (\<exists>offs. [Info, IndicesExists, IndicesCreate, Search 0 example_request] =
         [Info, IndicesExists, IndicesCreate] @ map (\<lambda>off. Search off example_request) (0 # offs))"
proof -
  let ?be = "paged_backend ([] :: int hit list) 10"
  let ?up = "\<lparr>initialized = True, clients_created = True,
              calls = [Info, IndicesExists, IndicesCreate]\<rparr> :: int store"
  let ?end = "\<lparr>initialized = True, clients_created = True,
              calls = [Info, IndicesExists, IndicesCreate, Search 0 example_request]\<rparr> :: int store"
  have a: "[1, 2] \<noteq> ([] :: int list)" by simp
  have b: "normalized example_deps None = Inr None" by (simp add: normalized_def)
  have c: "ensure_initialized ?be fresh = (Inr (), ?up)"
    by (simp add: ensure_initialized_def paged_backend_def fresh_def send_def)
  have d: "clients_created ?up" by simp
  have e: "example_request =
       \<lparr>kw_size = None, kw_query = None,
        kw_knn = Some \<lparr>knn_field = ''embedding'', knn_query_vector = [1, 2],
                       knn_k = 5, knn_num_candidates = 5 * 10, knn_filter = None\<rparr>\<rparr>"
    by (simp add: example_request_def)
  have c1: "client_of Sync ?be fresh = (Inr (), ?up)" using c by simp
  have c2: "client_of Async ?be ?up = (Inr (), ?up)" by simp
  have resp: "search_resp ?be 0 example_request = Inr \<lparr>hits = [], total = 0\<rparr>"
    by (simp add: paged_backend_def)
  have des: "deserialize_hits example_deps (hits \<lparr>hits = ([] :: int hit list), total = 0\<rparr>) = Inr []"
    by simp
  have st: "stops (top_k_of example_request) 0 0" by (simp add: stops_def)
  have s1: "search_documents example_deps ?be example_request fresh = Some (Inr [], ?end)"
    unfolding search_documents_def
    by (subst search_loop_step[OF c1 resp des]) (simp add: st send_def)
  have s2: "search_documents_async example_deps ?be example_request ?up = Some (Inr [], ?end)"
    unfolding search_documents_async_def
    by (subst search_loop_step[OF c2 resp des]) (simp add: st send_def)
  note t = default_candidate_pool[OF a b c d e, where r = "Inr []" and ?st2.0 = ?end]
  from t s1 have r1: "embedding_retrieval example_deps ?be [1, 2] None 5 None fresh =
       Some (Inr [], ?end)" by simp
  from t s2 have r2: "embedding_retrieval_async example_deps ?be [1, 2] None 5 None fresh =
       Some (Inr [], ?end)" by simp
  from t r1 have r3: "\<exists>offs. [Info, IndicesExists, IndicesCreate, Search 0 example_request] =
         [Info, IndicesExists, IndicesCreate] @ map (\<lambda>off. Search off example_request) (0 # offs)"
    by simp
  from a b c r1 r2 r3 show ?thesis by blast
qed

section \<open>Writing under a duplicate policy\<close>

lemma classify_skip_filter:
  "classify SKIP errors dups others = classify SKIP (filter (\<lambda>e. \<not> is_conflict e) errors) dups others"
  by (induction errors arbitrary: dups others) (auto simp: is_conflict_def)

lemma reconcile_skip_filter:
  "reconcile SKIP n errors = reconcile SKIP n (filter (\<lambda>e. \<not> is_conflict e) errors)"
proof (cases "filter (\<lambda>e. \<not> is_conflict e) errors = []")
  case True
  then have "classify SKIP errors [] [] = Inr ([], [])"
    using classify_skip_filter[of errors "[]" "[]"] by simp
  with True show ?thesis by (simp add: reconcile_def)
next
  case False
  then have "errors \<noteq> []" by auto
  with False show ?thesis
    using classify_skip_filter[of errors "[]" "[]"] by (simp add: reconcile_def)
qed

lemma actions_of_documents:
  "elasticsearch_actions dp act (map Doc ds) =
     Inr (map (\<lambda>d. \<lparr>a_op_type = act, a_id = doc_id d, a_source = doc_source dp d\<rparr>) ds)"
proof -
  have "actions_loop dp act (map Doc ds) =
     Inr (map (\<lambda>d. \<lparr>a_op_type = act, a_id = doc_id d, a_source = doc_source dp d\<rparr>) ds)"
    by (induction ds) simp_all
  then show ?thesis by (cases ds) (simp_all add: elasticsearch_actions_def)
qed

lemma write_documents_submitted:
  assumes acts: "elasticsearch_actions dp (action_sync policy) documents = Inr acts"
    and init: "ensure_initialized be st = (Inr (), st1)"
    and resp: "bulk_resp be acts = Inr (n, errors)"
  shows "write_documents dp be documents policy st =
           (reconcile (resolve_policy policy) n errors, send (Bulk acts WaitFor) st1)"
  using acts init resp by (simp add: write_documents_def Let_def)


lemma classify_fail:
  "\<forall>e \<in> set errors. op_key e = ''create'' \<Longrightarrow>
   classify FAIL errors dups others =
     Inr (dups @ map item_id (filter is_conflict errors),
          others @ filter (\<lambda>e. \<not> is_conflict e) errors)"
  by (induction errors arbitrary: dups others) (auto simp: is_conflict_def)

lemma fail_conflicts_raise_duplicate:
  assumes acts: "elasticsearch_actions dp (action_sync policy) documents = Inr acts"
    and pol: "policy = FAIL \<or> policy = NONE"
    and init: "ensure_initialized be st = (Inr (), st1)"
    and resp: "bulk_resp be acts = Inr (n, errors)"
    and keys: "\<forall>e \<in> set errors. op_key e = ''create''"
    and some: "\<exists>e \<in> set errors. is_conflict e"
  shows "write_documents dp be documents policy st =
           (Inl (DuplicateDocumentError
                   (duplicate_ids_msg (map item_id (filter is_conflict errors)))),
            send (Bulk acts WaitFor) st1)"
proof -
  have r: "resolve_policy policy = FAIL" using pol by (auto simp: resolve_policy_def)
  have ne: "errors \<noteq> []" using some by auto
  have f: "filter is_conflict errors \<noteq> []" using some by (simp add: filter_empty_conv)
  show ?thesis
    using write_documents_submitted[OF acts init resp] classify_fail[OF keys, of "[]" "[]"] ne f
    by (simp add: r reconcile_def)
qed

lemma actions_loop_verb:
  "actions_loop dp act ds = Inr acts \<Longrightarrow> map a_op_type acts = map (\<lambda>d. act) ds"
proof (induction dp act ds arbitrary: acts rule: actions_loop.induct)
  case (1 dp act)
  then show ?case by simp
next
  case (2 dp act ds)
  then show ?case by simp
next
  case (3 dp act i doc_dict ds)
  then show ?case by (auto split: sum.splits)
next
  case (4 dp act d ds)
  then show ?case by (auto split: sum.splits)
qed

lemma actions_verb:
  "elasticsearch_actions dp act ds = Inr acts \<Longrightarrow> map a_op_type acts = map (\<lambda>d. act) ds"
  by (auto simp: elasticsearch_actions_def dest: actions_loop_verb split: if_splits)

lemma action_sync_cases:
  "action_sync OVERWRITE = ''index'' \<and> action_sync FAIL = ''create''
   \<and> action_sync SKIP = ''create'' \<and> action_sync NONE = ''create''"
  by (simp add: action_sync_def resolve_policy_def)

lemma action_async_cases:
  "action_async OVERWRITE = ''index'' \<and> action_async FAIL = ''create''
   \<and> action_async SKIP = ''index'' \<and> action_async NONE = ''create''"
  by (simp add: action_async_def resolve_policy_def)

lemma except_Exception_class:
  "except_Exception r = Inl e \<Longrightarrow> class_of e = DocumentStoreErrorC"
  by (auto simp: except_Exception_def split: sum.splits)

lemma actions_loop_error: "actions_loop dp act ds = Inl e \<Longrightarrow> e = AttributeError"
proof (induction dp act ds rule: actions_loop.induct)
  case (1 dp act)
  then show ?case by simp
next
  case (2 dp act ds)
  then show ?case by simp
next
  case (3 dp act i doc_dict ds)
  then show ?case by (auto split: sum.splits)
next
  case (4 dp act d ds)
  then show ?case by (auto split: sum.splits)
qed

lemma actions_error:
  "elasticsearch_actions dp act ds = Inl e \<Longrightarrow>
   e = AttributeError \<or> e = ValueError not_documents_msg"
  by (auto simp: elasticsearch_actions_def dest: actions_loop_error split: if_splits)

lemma write_documents_async_never_duplicate:
  "fst (write_documents_async dp be documents policy st) = Inl e \<Longrightarrow>
   class_of e \<noteq> DuplicateDocumentErrorC"
  by (auto simp: write_documents_async_def ensure_initialized_def Let_def
      dest!: except_Exception_class actions_error
      split: if_splits sum.splits prod.splits)

lemma write_documents_async_submitted:
  assumes acts: "elasticsearch_actions dp (action_async policy) documents = Inr acts"
    and init: "initialized st"
    and resp: "bulk_resp be acts = Inr (n, [])"
  shows "write_documents_async dp be documents policy st = (Inr n, send (Bulk acts RefreshTrue) st)"
  using acts init resp
  by (simp add: write_documents_async_def Let_def ensure_initialized_ready reconcile_async_def
      except_Exception_def)

lemma action_async_sync: "policy \<noteq> SKIP \<Longrightarrow> action_async policy = action_sync policy"
  by (cases policy) (simp_all add: action_async_def action_sync_def resolve_policy_def)

text \<open>
  Claim C4. Under \<^verbatim>\<open>SKIP\<close>, \<^verbatim>\<open>write_documents\<close> passes over every failed item that reports
  an identifier conflict: the call ends as if the backend had not reported these items,
  and when all failed items are such conflicts it raises nothing and returns the count of
  the backend.
\<close>

theorem skip_conflicts_are_success:
  assumes acts: "elasticsearch_actions dp (action_sync SKIP) documents = Inr acts"
    and init: "ensure_initialized be st = (Inr (), st1)"
    and resp: "bulk_resp be acts = Inr (n, errors)"
  shows "write_documents dp be documents SKIP st =
           (reconcile SKIP n (filter (\<lambda>e. \<not> is_conflict e) errors), send (Bulk acts WaitFor) st1)
       \<and> ((\<forall>e \<in> set errors. is_conflict e) \<longrightarrow>
            write_documents dp be documents SKIP st = (Inr n, send (Bulk acts WaitFor) st1))"
proof -
  have w: "write_documents dp be documents SKIP st =
           (reconcile SKIP n errors, send (Bulk acts WaitFor) st1)"
    using write_documents_submitted[OF acts init resp] by (simp add: resolve_policy_def)
  have f: "reconcile SKIP n errors = reconcile SKIP n (filter (\<lambda>e. \<not> is_conflict e) errors)"
    by (rule reconcile_skip_filter)
  have "(\<forall>e \<in> set errors. is_conflict e) \<longrightarrow> reconcile SKIP n errors = Inr n"
  proof
    assume "\<forall>e \<in> set errors. is_conflict e"
    then have "filter (\<lambda>e. \<not> is_conflict e) errors = []" by (simp add: filter_empty_conv)
    with f show "reconcile SKIP n errors = Inr n" by (simp add: reconcile_def)
  qed
  with w f show ?thesis by simp
qed

theorem skip_conflicts_are_success_witness:
  "elasticsearch_actions example_deps (action_sync SKIP) [Doc (example_doc ''a''), Doc (example_doc ''b'')]
     = Inr [\<lparr>a_op_type = ''create'', a_id = ''a'',
             a_source = [(''id'', JStr ''a''), (''content'', JStr ''text'')]\<rparr>,
            \<lparr>a_op_type = ''create'', a_id = ''b'',
             a_source = [(''id'', JStr ''b''), (''content'', JStr ''text'')]\<rparr>]
   \<and> is_conflict (conflict_item ''a'')
   \<and> write_documents example_deps (existing_backend [''a''])
        [Doc (example_doc ''a''), Doc (example_doc ''b'')] SKIP ready =
       (Inr 1, send (Bulk [\<lparr>a_op_type = ''create'', a_id = ''a'',
             a_source = [(''id'', JStr ''a''), (''content'', JStr ''text'')]\<rparr>,
            \<lparr>a_op_type = ''create'', a_id = ''b'',
             a_source = [(''id'', JStr ''b''), (''content'', JStr ''text'')]\<rparr>] WaitFor) ready)"
proof -
  let ?acts = "[\<lparr>a_op_type = ''create'', a_id = ''a'',
             a_source = [(''id'', JStr ''a''), (''content'', JStr ''text'')]\<rparr>,
            \<lparr>a_op_type = ''create'', a_id = ''b'',
             a_source = [(''id'', JStr ''b''), (''content'', JStr ''text'')]\<rparr>] :: int action list"
  have acts: "elasticsearch_actions example_deps (action_sync SKIP)
      [Doc (example_doc ''a''), Doc (example_doc ''b'')] = Inr ?acts"
    by (simp add: action_sync_def resolve_policy_def elasticsearch_actions_def doc_source_def pop_sparse_embedding_def example_deps_def
        example_doc_def has_key_def)
  have init: "ensure_initialized (existing_backend [''a'']) ready = (Inr (), ready)"
    by (simp add: ensure_initialized_def ready_def)
  have resp: "bulk_resp (existing_backend [''a'']) ?acts = Inr (1, [conflict_item ''a''])"
    by (simp add: existing_backend_def)
  have c: "\<forall>e \<in> set [conflict_item ''a'']. is_conflict e"
    by (simp add: is_conflict_def conflict_item_def)
  show ?thesis
    using skip_conflicts_are_success[OF acts init resp] acts c by (simp add: reconcile_def)
qed

text \<open>
  Claim C2. \<^verbatim>\<open>write_documents\<close> sends \<^verbatim>\<open>index\<close> under \<^verbatim>\<open>OVERWRITE\<close> and \<^verbatim>\<open>create\<close> under
  \<^verbatim>\<open>FAIL\<close>, \<^verbatim>\<open>SKIP\<close> and \<^verbatim>\<open>NONE\<close>. \<^verbatim>\<open>write_documents_async\<close> sends \<^verbatim>\<open>create\<close> under
  \<^verbatim>\<open>FAIL\<close> and \<^verbatim>\<open>NONE\<close> only: under \<^verbatim>\<open>SKIP\<close> it sends \<^verbatim>\<open>index\<close>, and a document whose
  identifier exists is written again instead of skipped.
\<close>

theorem write_documents_async_skip_sends_index:
  "action_sync SKIP = ''create''
   \<and> calls (snd (write_documents_async example_deps (existing_backend [''a''])
        [Doc (example_doc ''a'')] SKIP ready))
     = [Bulk [\<lparr>a_op_type = ''index'', a_id = ''a'',
               a_source = [(''id'', JStr ''a''), (''content'', JStr ''text'')]\<rparr>] RefreshTrue]
   \<and> fst (write_documents_async example_deps (existing_backend [''a''])
        [Doc (example_doc ''a'')] SKIP ready) = Inr 1"
  by (simp add: write_documents_async_def ensure_initialized_def ready_def
      existing_backend_def example_deps_def example_doc_def action_async_def action_sync_def
      resolve_policy_def elasticsearch_actions_def doc_source_def pop_sparse_embedding_def has_key_def send_def reconcile_async_def
      except_Exception_def)

text \<open>
  Claim C3. Under \<^verbatim>\<open>FAIL\<close>, \<^verbatim>\<open>write_documents\<close> raises \<^verbatim>\<open>DuplicateDocumentError\<close> for the
  conflicts of the batch. In \<^verbatim>\<open>write_documents_async\<close> the \<^verbatim>\<open>DuplicateDocumentError\<close> is
  raised inside the \<^verbatim>\<open>try\<close> block, caught by \<^verbatim>\<open>except Exception\<close> and replaced by a
  \<^verbatim>\<open>DocumentStoreError\<close>.
\<close>

theorem write_documents_async_conflict_error:
  "fst (write_documents_async example_deps (existing_backend [''a''])
          [Doc (example_doc ''a'')] FAIL ready)
     = Inl (DocumentStoreError_from (DuplicateDocumentError (duplicate_id_msg ''a'')))
   \<and> fst (write_documents example_deps (existing_backend [''a''])
          [Doc (example_doc ''a'')] FAIL ready)
     = Inl (DuplicateDocumentError (duplicate_ids_msg [''a'']))"
  by (simp add: write_documents_async_def write_documents_def ensure_initialized_def ready_def
      existing_backend_def example_deps_def example_doc_def action_async_def action_sync_def
      resolve_policy_def elasticsearch_actions_def doc_source_def pop_sparse_embedding_def has_key_def send_def reconcile_async_def reconcile_def
      except_Exception_def conflict_item_def DOC_ALREADY_EXISTS_def)

section \<open>Score rescaling\<close>

text \<open>The loop under \<^verbatim>\<open>scale_score\<close> replaces the score of every document that has one
  by its image under the logistic expression and leaves every other document, and every
  other field, as it is.\<close>

lemma rescale_scores:
  "length (rescale dp docs) = length docs
   \<and> map score (rescale dp docs) = map (\<lambda>d. map_option (scale dp) (score d)) docs
   \<and> map doc_id (rescale dp docs) = map doc_id docs
   \<and> map doc_fields (rescale dp docs) = map doc_fields docs
   \<and> (\<forall>i < length docs. score (docs ! i) = None \<longrightarrow> rescale dp docs ! i = docs ! i)"
  by (auto simp: rescale_def split: option.splits)


subsection \<open>Rounding\<close>

lemma round_even_bounds: "\<lfloor>x\<rfloor> \<le> round_even x \<and> round_even x \<le> \<lfloor>x\<rfloor> + 1"
  by (simp add: round_even_def Let_def)

lemma round_even_int [simp]: "round_even (of_int n) = n"
  by (simp add: round_even_def)

lemma round_even_mono: "s \<le> t \<Longrightarrow> round_even s \<le> round_even t"
proof (cases "\<lfloor>s\<rfloor> = \<lfloor>t\<rfloor>")
  case True
  assume "s \<le> t"
  with True show ?thesis by (auto simp: round_even_def Let_def)
next
  case False
  assume "s \<le> t"
  then have "\<lfloor>s\<rfloor> \<le> \<lfloor>t\<rfloor>" by (rule floor_mono)
  with False have "\<lfloor>s\<rfloor> + 1 \<le> \<lfloor>t\<rfloor>" by simp
  with round_even_bounds[of s] round_even_bounds[of t] show ?thesis by linarith
qed

lemma round_nearest_zero [simp]: "round_nearest 0 = 0"
  by (simp add: round_nearest_def)

lemma round_nearest_minus: "round_nearest (- x) = - round_nearest x"
  by (simp add: round_nearest_def ulp_exponent_def sgn_minus)

lemma round_nearest_pos:
  "0 < x \<Longrightarrow> round_nearest x =
     of_int (round_even (x / 2 powr of_int (ulp_exponent x))) * 2 powr of_int (ulp_exponent x)"
  by (simp add: round_nearest_def)

lemma round_nearest_nonneg: "0 \<le> x \<Longrightarrow> 0 \<le> round_nearest x"
proof (cases "x = 0")
  case True
  then show ?thesis by simp
next
  case False
  assume "0 \<le> x"
  with False have x: "0 < x" by simp
  have "round_even 0 \<le> round_even (x / 2 powr of_int (ulp_exponent x))"
    using x by (intro round_even_mono) simp
  then have "0 \<le> round_even (x / 2 powr of_int (ulp_exponent x))" by (simp add: round_even_def)
  then show ?thesis using x by (simp add: round_nearest_pos)
qed

lemma binade:
  assumes "0 < x"
  shows "2 powr of_int \<lfloor>log 2 x\<rfloor> \<le> x" and "x < 2 powr of_int (\<lfloor>log 2 x\<rfloor> + 1)"
proof -
  have "of_int \<lfloor>log 2 x\<rfloor> \<le> log 2 x" by simp
  then have "2 powr of_int \<lfloor>log 2 x\<rfloor> \<le> 2 powr log 2 x" by simp
  then show "2 powr of_int \<lfloor>log 2 x\<rfloor> \<le> x" using assms by simp
  have "log 2 x < of_int (\<lfloor>log 2 x\<rfloor> + 1)" by linarith
  then have "2 powr log 2 x < 2 powr of_int (\<lfloor>log 2 x\<rfloor> + 1)" by simp
  then show "x < 2 powr of_int (\<lfloor>log 2 x\<rfloor> + 1)" using assms by simp
qed

lemma powr_int_nonneg: "0 \<le> n \<Longrightarrow> (2::real) powr of_int n = of_int (2 ^ nat n)"
  by (simp add: powr_real_of_int)

lemma ulp_exponent_mono: "0 < x \<Longrightarrow> x \<le> y \<Longrightarrow> ulp_exponent x \<le> ulp_exponent y"
proof -
  assume "0 < x" "x \<le> y"
  then have "log 2 x \<le> log 2 y" by simp
  then have "\<lfloor>log 2 x\<rfloor> \<le> \<lfloor>log 2 y\<rfloor>" by (rule floor_mono)
  then show ?thesis using \<open>0 < x\<close> \<open>x \<le> y\<close> by (simp add: ulp_exponent_def)
qed

lemma scaled_power:
  assumes "e \<le> j"
  shows "(2::real) powr of_int j / 2 powr of_int e = of_int (2 ^ nat (j - e))"
proof -
  have "(2::real) powr of_int j / 2 powr of_int e = 2 powr of_int (j - e)"
    by (simp add: powr_diff)
  also have "\<dots> = of_int (2 ^ nat (j - e))" using assms by (intro powr_int_nonneg) simp
  finally show ?thesis .
qed

lemma round_nearest_le_power:
  assumes x: "0 < x" and le: "x \<le> 2 powr of_int j" and e: "ulp_exponent x \<le> j"
  shows "round_nearest x \<le> 2 powr of_int j"
proof -
  let ?u = "(2::real) powr of_int (ulp_exponent x)"
  have u: "0 < ?u" by simp
  have "x / ?u \<le> 2 powr of_int j / ?u" using le u by (simp add: divide_right_mono)
  also have "\<dots> = of_int (2 ^ nat (j - ulp_exponent x))" using e by (rule scaled_power)
  finally have "round_even (x / ?u) \<le> round_even (of_int (2 ^ nat (j - ulp_exponent x)))"
    by (rule round_even_mono)
  then have "round_even (x / ?u) \<le> 2 ^ nat (j - ulp_exponent x)"
    by (simp only: round_even_int)
  then have "(of_int (round_even (x / ?u)) :: real) \<le> of_int (2 ^ nat (j - ulp_exponent x))"
    by (simp only: of_int_le_iff)
  then have "of_int (round_even (x / ?u)) * ?u \<le> of_int (2 ^ nat (j - ulp_exponent x)) * ?u"
    using u by (simp add: mult_right_mono)
  also have "\<dots> = 2 powr of_int j"
    using scaled_power[OF e] u by (simp add: field_simps)
  finally show ?thesis using x by (simp add: round_nearest_pos)
qed

lemma round_nearest_ge_power:
  assumes x: "0 < x" and le: "2 powr of_int j \<le> x" and e: "ulp_exponent x \<le> j"
  shows "2 powr of_int j \<le> round_nearest x"
proof -
  let ?u = "(2::real) powr of_int (ulp_exponent x)"
  have u: "0 < ?u" by simp
  have "of_int (2 ^ nat (j - ulp_exponent x)) = 2 powr of_int j / ?u"
    using e by (rule scaled_power[symmetric])
  also have "\<dots> \<le> x / ?u" using le u by (simp add: divide_right_mono)
  finally have "round_even (of_int (2 ^ nat (j - ulp_exponent x))) \<le> round_even (x / ?u)"
    by (rule round_even_mono)
  then have "2 ^ nat (j - ulp_exponent x) \<le> round_even (x / ?u)"
    by (simp only: round_even_int)
  then have "(of_int (2 ^ nat (j - ulp_exponent x)) :: real) \<le> of_int (round_even (x / ?u))"
    by (simp only: of_int_le_iff)
  then have b: "of_int (2 ^ nat (j - ulp_exponent x)) * ?u \<le> of_int (round_even (x / ?u)) * ?u"
    using u by (intro mult_right_mono) simp_all
  have a: "2 powr of_int j = of_int (2 ^ nat (j - ulp_exponent x)) * ?u"
    using scaled_power[OF e] u by (simp add: field_simps)
  have "2 powr of_int j \<le> of_int (round_even (x / ?u)) * ?u"
    using a b by (rule ord_eq_le_trans)
  then show ?thesis by (simp only: round_nearest_pos[OF x])
qed

lemma round_nearest_mono_pos:
  assumes x: "0 < x" and le: "x \<le> y"
  shows "round_nearest x \<le> round_nearest y"
proof -
  have y: "0 < y" using x le by simp
  have e: "ulp_exponent x \<le> ulp_exponent y" using x le by (rule ulp_exponent_mono)
  show ?thesis
  proof (cases "ulp_exponent x = ulp_exponent y")
    case True
    let ?u = "(2::real) powr of_int (ulp_exponent y)"
    have u: "0 < ?u" by simp
    have "x / ?u \<le> y / ?u" using le u by (simp add: divide_right_mono)
    then have "round_even (x / ?u) \<le> round_even (y / ?u)" by (rule round_even_mono)
    then have "(of_int (round_even (x / ?u)) :: real) \<le> of_int (round_even (y / ?u))"
      by (simp only: of_int_le_iff)
    then have "of_int (round_even (x / ?u)) * ?u \<le> of_int (round_even (y / ?u)) * ?u"
      using u by (simp add: mult_right_mono)
    then show ?thesis using x y True by (simp add: round_nearest_pos)
  next
    case False
    with e have lt: "ulp_exponent x < ulp_exponent y" by simp
    let ?ky = "\<lfloor>log 2 y\<rfloor>"
    let ?kx = "\<lfloor>log 2 x\<rfloor>"
    have ey: "ulp_exponent y = ?ky - 52" and kk: "?kx + 1 \<le> ?ky"
      using lt x y by (auto simp: ulp_exponent_def max_def split: if_splits)
    have "x < 2 powr of_int (?kx + 1)" using x by (rule binade)
    also have "\<dots> \<le> 2 powr of_int ?ky" using kk by simp
    finally have xb: "x \<le> 2 powr of_int ?ky" by simp
    have "round_nearest x \<le> 2 powr of_int ?ky"
      using x xb lt ey by (intro round_nearest_le_power) simp_all
    also have "\<dots> \<le> round_nearest y"
      using y binade(1)[OF y] ey by (intro round_nearest_ge_power) simp_all
    finally show ?thesis .
  qed
qed

lemma round_nearest_mono: "x \<le> y \<Longrightarrow> round_nearest x \<le> round_nearest y"
proof -
  assume le: "x \<le> y"
  consider "0 < x" | "x \<le> 0" "0 \<le> y" | "y < 0" by linarith
  then show ?thesis
  proof cases
    case 1
    then show ?thesis using le by (rule round_nearest_mono_pos)
  next
    case 2
    have "0 \<le> round_nearest (- x)" using 2 by (intro round_nearest_nonneg) simp
    then have "round_nearest x \<le> 0" by (simp add: round_nearest_minus)
    also have "0 \<le> round_nearest y" using 2 by (intro round_nearest_nonneg)
    finally show ?thesis .
  next
    case 3
    then have "round_nearest (- y) \<le> round_nearest (- x)"
      using le by (intro round_nearest_mono_pos) simp_all
    then show ?thesis by (simp add: round_nearest_minus)
  qed
qed

lemma round_nearest_power:
  assumes "- 1074 \<le> j"
  shows "round_nearest (2 powr of_int j) = 2 powr of_int j"
proof -
  have e: "ulp_exponent (2 powr of_int j) \<le> j"
    using assms by (simp add: ulp_exponent_def)
  have "round_nearest (2 powr of_int j) \<le> 2 powr of_int j"
    using e by (intro round_nearest_le_power) simp_all
  moreover have "2 powr of_int j \<le> round_nearest (2 powr of_int j)"
    using e by (intro round_nearest_ge_power) simp_all
  ultimately show ?thesis by simp
qed

lemma round_nearest_one [simp]: "round_nearest 1 = 1"
  using round_nearest_power[of 0] by simp


subsection \<open>The operations of the rescaling\<close>

lemma to_double_not_NaN [simp]: "to_double x \<noteq> NaN"
  by (simp add: to_double_def Let_def)

lemma to_double_mono: "x \<le> y \<Longrightarrow> dle (to_double x) (to_double y)"
  using round_nearest_mono[of x y] by (auto simp: to_double_def Let_def)

lemma to_double_nonneg:
  "0 \<le> x \<Longrightarrow> to_double x = PosInf \<or> (\<exists>r. to_double x = Finite r \<and> 0 \<le> r)"
  using round_nearest_nonneg[of x] by (auto simp: to_double_def Let_def)

lemma to_double_unit:
  assumes "0 \<le> x" and "x \<le> 1"
  shows "\<exists>r. to_double x = Finite r \<and> 0 \<le> r \<and> r \<le> 1"
proof -
  have "round_nearest x \<le> round_nearest 1" using assms by (intro round_nearest_mono)
  then have "round_nearest x \<le> 1" by simp
  moreover have "0 \<le> round_nearest x" using assms by (intro round_nearest_nonneg)
  moreover have "(1::real) < 2 ^ 1024" by simp
  ultimately show ?thesis by (auto simp: to_double_def Let_def)
qed

lemma to_double_ge_one:
  assumes "1 \<le> x"
  shows "to_double x = PosInf \<or> (\<exists>r. to_double x = Finite r \<and> 1 \<le> r)"
proof -
  have "round_nearest 1 \<le> round_nearest x" using assms by (intro round_nearest_mono)
  then have "1 \<le> round_nearest x" by simp
  then show ?thesis by (auto simp: to_double_def Let_def)
qed

lemma dle_refl_cases: "a \<noteq> NaN \<Longrightarrow> dle NegInf a \<and> dle a PosInf"
  by (cases a) simp_all

lemma scaled_down_not_NaN: "a \<noteq> NaN \<Longrightarrow> scaled_down a \<noteq> NaN"
  by (cases a) simp_all

lemma scaled_down_mono: "dle a b \<Longrightarrow> dle (scaled_down a) (scaled_down b)"
  by (cases a; cases b)
    (simp_all add: to_double_mono BM25_SCALING_FACTOR_def dle_refl_cases)

lemma negative_anti: "dle a b \<Longrightarrow> dle (negative b) (negative a)"
  by (cases a; cases b) simp_all

lemma np_exp_range:
  "a \<noteq> NaN \<Longrightarrow> np_exp a = PosInf \<or> (\<exists>r. np_exp a = Finite r \<and> 0 \<le> r)"
  by (cases a) (simp_all add: to_double_nonneg)

lemma np_exp_mono: "dle a b \<Longrightarrow> dle (np_exp a) (np_exp b)"
proof (cases a; cases b)
  fix x y
  assume "dle a b" "a = Finite x" "b = Finite y"
  then show ?thesis by (simp add: to_double_mono)
next
  fix x
  assume "dle a b" "a = Finite x" "b = PosInf"
  then show ?thesis by (simp add: dle_refl_cases)
next
  fix y
  assume "dle a b" "a = NegInf" "b = Finite y"
  then show ?thesis using to_double_nonneg[of "exp y"] by auto
qed simp_all

lemma one_plus_range:
  assumes "a = PosInf \<or> (\<exists>r. a = Finite r \<and> 0 \<le> r)"
  shows "one_plus a = PosInf \<or> (\<exists>r. one_plus a = Finite r \<and> 1 \<le> r)"
proof -
  from assms consider "a = PosInf" | r where "a = Finite r" "0 \<le> r" by blast
  then show ?thesis
  proof cases
    case 1
    then show ?thesis by simp
  next
    case 2
    then show ?thesis using to_double_ge_one[of "1 + r"] by simp
  qed
qed

lemma one_plus_mono: "dle a b \<Longrightarrow> dle (one_plus a) (one_plus b)"
  by (cases a; cases b) (simp_all add: to_double_mono dle_refl_cases)

lemma one_over_range:
  assumes "a = PosInf \<or> (\<exists>r. a = Finite r \<and> 1 \<le> r)"
  shows "\<exists>r. one_over a = Finite r \<and> 0 \<le> r \<and> r \<le> 1"
proof -
  from assms consider "a = PosInf" | r where "a = Finite r" "1 \<le> r" by blast
  then show ?thesis
  proof cases
    case 1
    then show ?thesis by simp
  next
    case 2
    then have "0 \<le> 1 / r" and "1 / r \<le> 1" by simp_all
    then show ?thesis using 2 to_double_unit[of "1 / r"] by auto
  qed
qed

lemma one_over_anti:
  assumes a: "a = PosInf \<or> (\<exists>r. a = Finite r \<and> 1 \<le> r)"
    and b: "b = PosInf \<or> (\<exists>r. b = Finite r \<and> 1 \<le> r)"
    and le: "dle a b"
  shows "dle (one_over b) (one_over a)"
proof -
  from a consider "a = PosInf" | x where "a = Finite x" "1 \<le> x" by blast
  then show ?thesis
  proof cases
    case 1
    with le b have "b = PosInf" by auto
    with 1 show ?thesis by simp
  next
    case 2
    note ax = this
    from b consider "b = PosInf" | y where "b = Finite y" "1 \<le> y" by blast
    then show ?thesis
    proof cases
      case 1
      obtain r where "one_over a = Finite r" "0 \<le> r" using one_over_range[OF a] by blast
      with 1 show ?thesis by simp
    next
      case 2
      with ax le have "x \<le> y" by simp
      then have "1 / y \<le> 1 / x" using ax(2) by (simp add: frac_le)
      then show ?thesis using ax 2 by (simp add: to_double_mono)
    qed
  qed
qed

lemma scaled_score_range: "\<exists>r. scaled_score (Finite a) = Finite r \<and> 0 \<le> r \<and> r \<le> 1"
proof -
  have "negative (scaled_down (Finite a)) \<noteq> NaN"
    by (cases "scaled_down (Finite a)") simp_all
  then show ?thesis
    unfolding scaled_score_def
    by (intro one_over_range one_plus_range np_exp_range)
qed

lemma scaled_score_mono:
  assumes "a \<le> b"
  shows "dle (scaled_score (Finite a)) (scaled_score (Finite b))"
proof -
  let ?f = "\<lambda>s. np_exp (negative (scaled_down (Finite s)))"
  have nn: "\<And>s. negative (scaled_down (Finite s)) \<noteq> NaN"
  proof -
    fix s show "negative (scaled_down (Finite s)) \<noteq> NaN"
      by (cases "scaled_down (Finite s)") simp_all
  qed
  have "dle (scaled_down (Finite a)) (scaled_down (Finite b))"
    using assms by (intro scaled_down_mono) simp
  then have "dle (?f b) (?f a)" by (intro np_exp_mono negative_anti)
  then have "dle (one_plus (?f b)) (one_plus (?f a))" by (rule one_plus_mono)
  then show ?thesis
    unfolding scaled_score_def
    by (intro one_over_anti one_plus_range np_exp_range nn)
qed


subsection \<open>Saturation\<close>

text \<open>From a score of 512 on, \<^verbatim>\<open>np.exp\<close> yields less than half a unit in the last place
  of 1, and the sum is 1.\<close>

lemma round_even_below_half:
  assumes "of_int n \<le> t" and "t \<le> of_int n + 1 / 2" and "even n"
  shows "round_even t = n"
proof -
  have f: "\<lfloor>t\<rfloor> = n" using assms(1,2) by linarith
  show ?thesis using assms by (auto simp: round_even_def f)
qed

lemma round_nearest_near_one:
  assumes "0 \<le> y" and "y \<le> 2 powr (- 53)"
  shows "round_nearest (1 + y) = 1"
proof -
  let ?z = "1 + y"
  have h: "(2::real) powr (- 53) = 1 / 2 ^ 53"
    by (simp add: powr_minus inverse_eq_divide)
  have y1: "y \<le> 1 / 2" using assms(2) unfolding h by simp
  have z: "1 \<le> ?z" "?z < 2" using assms(1) y1 by simp_all
  have "0 \<le> log 2 ?z" using z by simp
  moreover have "log 2 ?z < 1" using z by (simp add: log_less_iff)
  ultimately have k: "\<lfloor>log 2 ?z\<rfloor> = 0" by linarith
  have e: "ulp_exponent ?z = - 52" using z k by (simp add: ulp_exponent_def)
  have u: "(2::real) powr (- 52) = 1 / 2 ^ 52"
    by (simp add: powr_minus inverse_eq_divide)
  have "y * 2 ^ 52 \<le> (1 / 2 ^ 53) * 2 ^ 52" using assms(2) h by (intro mult_right_mono) simp_all
  then have yh: "y * 2 ^ 52 \<le> 1 / 2" by simp
  have t: "?z / 2 powr of_int (ulp_exponent ?z) = 2 ^ 52 + y * 2 ^ 52"
    by (simp add: e u algebra_simps)
  have r: "round_even (2 ^ 52 + y * 2 ^ 52) = 2 ^ 52"
  proof (rule round_even_below_half)
    show "real_of_int (2 ^ 52) \<le> 2 ^ 52 + y * 2 ^ 52" using assms(1) by simp
    show "2 ^ 52 + y * 2 ^ 52 \<le> real_of_int (2 ^ 52) + 1 / 2" using yh by simp
    show "even ((2::int) ^ 52)" by simp
  qed
  have "0 < ?z" using z by simp
  then have "round_nearest ?z =
      of_int (round_even (?z / 2 powr of_int (ulp_exponent ?z))) * 2 powr of_int (ulp_exponent ?z)"
    by (rule round_nearest_pos)
  also have "\<dots> = of_int (2 ^ 52) * 2 powr of_int (ulp_exponent ?z)" by (simp only: t r)
  also have "\<dots> = 2 ^ 52 * 2 powr (- 52)" by (simp add: e)
  also have "\<dots> = 1" unfolding u by simp
  finally show ?thesis .
qed

lemma exp_ge_power_two: "(2::real) ^ n \<le> exp (of_nat n)"
proof -
  have "(2::real) \<le> exp 1" using exp_ge_add_one_self[of "1::real"] by simp
  then have "(2::real) ^ n \<le> exp 1 ^ n" by (intro power_mono) simp_all
  also have "\<dots> = exp (of_nat n * 1)" by (rule exp_of_nat_mult[symmetric])
  finally show ?thesis by simp
qed

lemma exp_small:
  assumes "64 \<le> (x::real)"
  shows "exp (- x) \<le> 2 powr (- 53)"
proof -
  have "(2::real) ^ 64 \<le> exp (of_nat 64)" by (rule exp_ge_power_two)
  also have "\<dots> \<le> exp x" using assms by simp
  finally have "(2::real) ^ 53 \<le> exp x" by simp
  then have "inverse (exp x) \<le> inverse (2 ^ 53)" by (intro le_imp_inverse_le) simp_all
  then show ?thesis by (simp add: exp_minus powr_minus)
qed

lemma scaled_score_saturates:
  assumes "512 \<le> a" and "a \<le> 2048"
  shows "scaled_score (Finite a) = Finite 1"
proof -
  let ?x = "round_nearest (a / 8)"
  have p6: "round_nearest 64 = 64" using round_nearest_power[of 6] by simp
  have p8: "round_nearest 256 = 256" using round_nearest_power[of 8] by simp
  have "round_nearest 64 \<le> ?x" using assms by (intro round_nearest_mono) simp
  then have lo: "64 \<le> ?x" by (simp add: p6)
  have "?x \<le> round_nearest 256" using assms by (intro round_nearest_mono) simp
  then have hi: "?x \<le> 256" by (simp add: p8)
  have big: "(256::real) < 2 ^ 1024" by simp
  have s1: "scaled_down (Finite a) = Finite ?x"
    using lo hi big by (simp add: to_double_def Let_def BM25_SCALING_FACTOR_def)
  let ?y = "round_nearest (exp (- ?x))"
  have "exp (- ?x) \<le> 2 powr (- 53)" using lo by (rule exp_small)
  then have "?y \<le> round_nearest (2 powr of_int (- 53))"
    by (intro round_nearest_mono) simp
  then have yhi: "?y \<le> 2 powr (- 53)" using round_nearest_power[of "- 53"] by simp
  have ylo: "0 \<le> ?y" by (intro round_nearest_nonneg) simp
  have "(2::real) powr (- 53) \<le> 2 powr 0" by (intro powr_mono) simp_all
  then have "?y \<le> 1" using yhi by simp
  then have s2: "np_exp (Finite (- ?x)) = Finite ?y"
    using ylo by (simp add: to_double_def Let_def)
  have s3: "one_plus (Finite ?y) = Finite 1"
    using round_nearest_near_one[OF ylo yhi] by (simp add: to_double_def Let_def)
  have s4: "one_over (Finite 1) = Finite 1" by (simp add: to_double_def Let_def)
  show ?thesis by (simp only: scaled_score_def s1 negative.simps s2 s3 s4)
qed

subsection \<open>The rescaled scores\<close>

text \<open>
  Claim C5, as amended. With \<^verbatim>\<open>scale_score\<close> set, \<^verbatim>\<open>_bm25_retrieval\<close> returns the documents
  of the search with the score of every document that has one replaced by
  \<^verbatim>\<open>float(1 / (1 + np.exp(-(score / 8))))\<close>, and every document without score as it is. For
  every finite score the rescaled value is a double between 0 and 1, both included, and
  the rescaling is monotone: of two scores, the greater has the greater or the same
  rescaled value.
\<close>

theorem rescaled_scores:
  assumes sc: "scale dp = scaled_score"
    and nf: "normalized dp filters = Inr nf"
    and q: "query_text \<noteq> []"
  shows "(bm25_retrieval dp be query_text filters fuzziness top_k True st = Some (Inr result, st1)
            \<longrightarrow> (\<exists>docs. search_documents dp be (bm25_kwargs query_text fuzziness top_k nf) st =
                          Some (Inr docs, st1)
                        \<and> result = rescale dp docs))
       \<and> length (rescale dp docs) = length docs
       \<and> (\<forall>i < length docs.
             rescale dp docs ! i =
               (case score (docs ! i) of
                  None \<Rightarrow> docs ! i
                | Some s \<Rightarrow> (docs ! i)\<lparr>score := Some (scaled_score s)\<rparr>))
       \<and> (\<exists>r. scaled_score (Finite a) = Finite r \<and> 0 \<le> r \<and> r \<le> 1)
       \<and> (a \<le> b \<longrightarrow> dle (scaled_score (Finite a)) (scaled_score (Finite b)))"
proof -
  have 1: "bm25_retrieval dp be query_text filters fuzziness top_k True st = Some (Inr result, st1)
            \<longrightarrow> (\<exists>docs. search_documents dp be (bm25_kwargs query_text fuzziness top_k nf) st =
                          Some (Inr docs, st1)
                        \<and> result = rescale dp docs)"
    using nf q
    by (auto simp: bm25_retrieval_def scored_def split: option.splits sum.splits prod.splits)
  have 2: "length (rescale dp docs) = length docs" by (simp add: rescale_def)
  have 3: "\<forall>i < length docs.
             rescale dp docs ! i =
               (case score (docs ! i) of
                  None \<Rightarrow> docs ! i
                | Some s \<Rightarrow> (docs ! i)\<lparr>score := Some (scaled_score s)\<rparr>)"
    by (simp add: rescale_def sc split: option.splits)
  from 1 2 3 scaled_score_range[of a] scaled_score_mono[of a b] show ?thesis by blast
qed

theorem rescaled_scores_witness:
  "scale double_deps = scaled_score
   \<and> normalized double_deps None = Inr None
   \<and> ''text'' \<noteq> []
   \<and> bm25_retrieval double_deps scored_backend ''text'' None ''AUTO'' 10 True scored_store =
       Some (Inr [\<lparr>doc_id = [], score = Some (Finite 1),
                   doc_fields = [(''score'', JFloat (Finite 1000))]\<rparr>,
                  \<lparr>doc_id = [], score = None, doc_fields = [(''score'', JNull)]\<rparr>],
             send (Search 0 (bm25_kwargs ''text'' ''AUTO'' 10 None)) scored_store)
   \<and> scaled_score (Finite 1000) = Finite 1
   \<and> dle (scaled_score (Finite 1000)) (scaled_score (Finite 2000))"
proof -
  let ?kw = "bm25_kwargs ''text'' ''AUTO'' 10 None :: double search_kwargs"
  let ?d1 = "\<lparr>doc_id = [], score = Some (Finite 1000),
              doc_fields = [(''score'', JFloat (Finite 1000))]\<rparr> :: double document"
  let ?d2 = "\<lparr>doc_id = [], score = None, doc_fields = [(''score'', JNull)]\<rparr> :: double document"
  let ?st1 = "send (Search 0 ?kw) scored_store"
  let ?res = "\<lparr>hits = [\<lparr>source = [], highlight = None, hit_score = JFloat (Finite 1000)\<rparr>,
                     \<lparr>source = [], highlight = None, hit_score = JNull\<rparr>],
              total = 2\<rparr> :: double page"
  have sc: "scale double_deps = scaled_score" by (simp add: double_deps_def)
  have nf: "normalized double_deps None = Inr None" by (simp add: normalized_def)
  have q: "''text'' \<noteq> []" by simp
  have sat: "scaled_score (Finite 1000) = Finite 1" by (rule scaled_score_saturates) simp_all
  have c: "client_of Sync scored_backend scored_store = (Inr (), scored_store)"
    by (simp add: ensure_initialized_def scored_store_def)
  have resp: "search_resp scored_backend 0 ?kw = Inr ?res" by (simp add: scored_backend_def)
  have des: "deserialize_hits double_deps (hits ?res) = Inr [?d1, ?d2]"
    by (simp add: deserialize_document_def deserialize_data_def double_deps_def)
  have st: "stops (top_k_of ?kw) (Suc (Suc 0)) 2" by (simp add: stops_def)
  have s: "search_documents double_deps scored_backend ?kw scored_store = Some (Inr [?d1, ?d2], ?st1)"
    unfolding search_documents_def
    by (subst search_loop_step[OF c resp des]) (simp add: st)
  have r: "rescale double_deps [?d1, ?d2] = [?d1\<lparr>score := Some (Finite 1)\<rparr>, ?d2]"
    by (simp add: rescale_def sc sat)
  have b: "bm25_retrieval double_deps scored_backend ''text'' None ''AUTO'' 10 True scored_store =
       Some (Inr [?d1\<lparr>score := Some (Finite 1)\<rparr>, ?d2], ?st1)"
    by (simp add: bm25_retrieval_def nf s scored_def r)
  note t = rescaled_scores[OF sc nf q, where a = 1000 and b = 2000 and be = scored_backend
      and fuzziness = "''AUTO''" and top_k = 10 and st = scored_store
      and result = "[?d1\<lparr>score := Some (Finite 1)\<rparr>, ?d2]" and ?st1.0 = ?st1
      and docs = "[?d1, ?d2]"]
  from t have m: "dle (scaled_score (Finite 1000)) (scaled_score (Finite 2000))" by simp
  from t b have "\<exists>docs. search_documents double_deps scored_backend ?kw scored_store =
                          Some (Inr docs, ?st1)
                        \<and> [?d1\<lparr>score := Some (Finite 1)\<rparr>, ?d2] = rescale double_deps docs"
    by blast
  with sc nf q b sat m show ?thesis by simp
qed


text \<open>
  Claim C5, as stated, fails: the scores 1000 and 2000 are both rescaled to exactly 1, which
  is not below 1, and the greater score has no greater value.
\<close>

theorem scaled_score_not_strict:
  "scaled_score (Finite 1000) = Finite 1 \<and> scaled_score (Finite 2000) = Finite 1"
  using scaled_score_saturates[of 1000] scaled_score_saturates[of 2000] by simp


section \<open>Validation and initialization\<close>

text \<open>
  Claim C8, as amended. The synchronous \<^verbatim>\<open>write_documents\<close>, \<^verbatim>\<open>_bm25_retrieval\<close> and
  \<^verbatim>\<open>_embedding_retrieval\<close> raise \<^verbatim>\<open>ValueError\<close> for a batch whose first element is no
  \<^verbatim>\<open>Document\<close>, an empty query and an empty query vector before any request is sent, and
  so do both variants of \<^verbatim>\<open>filter_documents\<close> for a non-empty filter whose root has
  neither \<^verbatim>\<open>operator\<close> nor \<^verbatim>\<open>conditions\<close>: the store is as it was. An error that
  \<^verbatim>\<open>_normalize_filters\<close> raises on another filter comes before any request in the
  synchronous retrievals, and after \<^verbatim>\<open>_ensure_initialized\<close> in both variants of
  \<^verbatim>\<open>filter_documents\<close>. The asynchronous \<^verbatim>\<open>write_documents_async\<close>,
  \<^verbatim>\<open>_bm25_retrieval_async\<close> and \<^verbatim>\<open>_embedding_retrieval_async\<close> run
  \<^verbatim>\<open>_ensure_initialized\<close> first: the validation error is raised in the store that the
  initialization leaves (the same store when it was initialized already), and an error of
  the initialization is raised in its place.
\<close>

theorem validation_order:
  "(length documents > 0 \<and> \<not> is_Document (hd documents) \<longrightarrow>
      write_documents dp be documents policy st = (Inl (ValueError not_documents_msg), st))
   \<and> bm25_retrieval dp be [] filters fuzziness top_k scale_score st =
       Some (Inl (ValueError empty_query_msg), st)
   \<and> embedding_retrieval dp be [] filters top_k num_candidates st =
       Some (Inl (ValueError empty_embedding_msg), st)
   \<and> (invalid_filter filters \<longrightarrow>
       filter_documents dp be filters st = Some (Inl (ValueError invalid_filter_msg), st)
       \<and> filter_documents_async dp be filters st =
           Some (Inl (ValueError invalid_filter_msg), st))
   \<and> (normalized dp filters = Inl fe \<longrightarrow>
       (query_text \<noteq> [] \<longrightarrow>
          bm25_retrieval dp be query_text filters fuzziness top_k scale_score st =
            Some (Inl fe, st))
       \<and> (query_embedding \<noteq> [] \<longrightarrow>
          embedding_retrieval dp be query_embedding filters top_k num_candidates st =
            Some (Inl fe, st))
       \<and> (\<not> invalid_filter filters \<and> ensure_initialized be st = (Inr (), st1) \<longrightarrow>
          filter_documents dp be filters st = Some (Inl fe, st1)
          \<and> filter_documents_async dp be filters st = Some (Inl fe, st1)))
   \<and> (ensure_initialized be st = (Inr (), st1) \<longrightarrow>
       (length documents > 0 \<and> \<not> is_Document (hd documents) \<longrightarrow>
          write_documents_async dp be documents policy st =
            (Inl (ValueError not_documents_msg), st1))
       \<and> bm25_retrieval_async dp be [] filters fuzziness top_k scale_score st =
           Some (Inl (ValueError empty_query_msg), st1)
       \<and> embedding_retrieval_async dp be [] filters top_k num_candidates st =
           Some (Inl (ValueError empty_embedding_msg), st1))
   \<and> (ensure_initialized be st = (Inl e, st1) \<longrightarrow>
       write_documents_async dp be documents policy st = (Inl e, st1)
       \<and> bm25_retrieval_async dp be query_text filters fuzziness top_k scale_score st =
           Some (Inl e, st1)
       \<and> embedding_retrieval_async dp be query_embedding filters top_k num_candidates st =
           Some (Inl e, st1))
   \<and> (initialized st \<longrightarrow> ensure_initialized be st = (Inr (), st))"
  by (simp add: write_documents_def write_documents_async_def elasticsearch_actions_def
      bm25_retrieval_def bm25_retrieval_async_def embedding_retrieval_def
      embedding_retrieval_async_def filter_documents_def filter_documents_async_def
      ensure_initialized_ready)

theorem validation_order_witness:
  "write_documents example_deps (paged_backend [] 10) [NotADocument None] NONE fresh =
     (Inl (ValueError not_documents_msg), fresh)
   \<and> bm25_retrieval example_deps (paged_backend [] 10) [] None ''AUTO'' 10 False fresh =
       Some (Inl (ValueError empty_query_msg), fresh)
   \<and> embedding_retrieval example_deps (paged_backend [] 10) [] None 10 None fresh =
       Some (Inl (ValueError empty_embedding_msg), fresh)
   \<and> filter_documents example_deps (paged_backend [] 10)
        (Some [(''field'', JStr ''meta.name'')]) fresh =
       Some (Inl (ValueError invalid_filter_msg), fresh)
   \<and> filter_documents_async example_deps (paged_backend [] 10)
        (Some [(''field'', JStr ''meta.name'')]) fresh =
       Some (Inl (ValueError invalid_filter_msg), fresh)
   \<and> bm25_retrieval rejecting_deps (paged_backend [] 10) ''text''
        (Some [(''conditions'', JList [])]) ''AUTO'' 10 False fresh =
       Some (Inl (FilterError ''malformed''), fresh)
   \<and> embedding_retrieval rejecting_deps (paged_backend [] 10) [1, 2]
        (Some [(''conditions'', JList [])]) 10 None fresh =
       Some (Inl (FilterError ''malformed''), fresh)
   \<and> filter_documents rejecting_deps (paged_backend [] 10)
        (Some [(''conditions'', JList [])]) fresh =
       Some (Inl (FilterError ''malformed''),
             \<lparr>initialized = True, clients_created = True,
              calls = [Info, IndicesExists, IndicesCreate]\<rparr>)
   \<and> write_documents_async example_deps (paged_backend [] 10) [NotADocument None] NONE ready =
       (Inl (ValueError not_documents_msg), ready)
   \<and> bm25_retrieval_async example_deps (paged_backend [] 10) [] None ''AUTO'' 10 False ready =
       Some (Inl (ValueError empty_query_msg), ready)
   \<and> embedding_retrieval_async example_deps (paged_backend [] 10) [] None 10 None ready =
       Some (Inl (ValueError empty_embedding_msg), ready)
   \<and> write_documents_async example_deps unreachable_backend [NotADocument None] NONE fresh =
       (Inl TransportError, \<lparr>initialized = False, clients_created = True, calls = [Info]\<rparr>)"
proof -
  let ?be = "paged_backend ([] :: int hit list) 10"
  let ?f = "Some [(''field'', JStr ''meta.name'')] :: int dict option"
  let ?g = "Some [(''conditions'', JList [])] :: int dict option"
  let ?up = "\<lparr>initialized = True, clients_created = True,
              calls = [Info, IndicesExists, IndicesCreate]\<rparr> :: int store"
  let ?down = "\<lparr>initialized = False, clients_created = True, calls = [Info]\<rparr> :: int store"
  have d1: "length [NotADocument None :: int pyobj] > 0
      \<and> \<not> is_Document (hd [NotADocument None :: int pyobj])"
    by simp
  have f: "invalid_filter ?f" by (simp add: invalid_filter_def has_key_def)
  have g: "\<not> invalid_filter ?g" by (simp add: invalid_filter_def has_key_def)
  have n: "normalized rejecting_deps ?g = Inl (FilterError ''malformed'')"
    by (simp add: normalized_def rejecting_deps_def)
  have q: "''text'' \<noteq> []" and v: "[1, 2] \<noteq> ([] :: int list)" by simp_all
  have r: "initialized ready" by (simp add: ready_def)
  have i: "ensure_initialized ?be fresh = (Inr (), ?up)"
    by (simp add: ensure_initialized_def paged_backend_def fresh_def send_def)
  have u: "ensure_initialized unreachable_backend fresh = (Inl TransportError, ?down)"
    by (simp add: ensure_initialized_def unreachable_backend_def fresh_def send_def)
  note sync = validation_order[where documents = "[NotADocument None]" and dp = example_deps
      and be = ?be and policy = NONE and st = fresh and filters = None
      and fuzziness = "''AUTO''" and top_k = 10 and scale_score = False
      and num_candidates = None]
  note flt = validation_order[where dp = example_deps and be = ?be and st = fresh
      and filters = ?f]
  note nrm = validation_order[where dp = rejecting_deps and be = ?be and st = fresh
      and filters = ?g and fe = "FilterError ''malformed''" and query_text = "''text''"
      and query_embedding = "[1, 2]" and fuzziness = "''AUTO''" and top_k = 10
      and scale_score = False and num_candidates = None and ?st1.0 = ?up]
  note async = validation_order[where documents = "[NotADocument None]" and dp = example_deps
      and be = ?be and policy = NONE and st = ready and filters = None
      and fuzziness = "''AUTO''" and top_k = 10 and scale_score = False
      and num_candidates = None and ?st1.0 = ready]
  note down = validation_order[where documents = "[NotADocument None]" and dp = example_deps
      and be = unreachable_backend and policy = NONE and st = fresh and e = TransportError
      and ?st1.0 = ?down]
  from sync d1 have s1: "write_documents example_deps ?be [NotADocument None] NONE fresh =
     (Inl (ValueError not_documents_msg), fresh)"
    and s2: "bm25_retrieval example_deps ?be [] None ''AUTO'' 10 False fresh =
       Some (Inl (ValueError empty_query_msg), fresh)"
    and s3: "embedding_retrieval example_deps ?be [] None 10 None fresh =
       Some (Inl (ValueError empty_embedding_msg), fresh)"
    by blast+
  from flt f have s5: "filter_documents example_deps ?be ?f fresh =
       Some (Inl (ValueError invalid_filter_msg), fresh)"
    and s6: "filter_documents_async example_deps ?be ?f fresh =
       Some (Inl (ValueError invalid_filter_msg), fresh)"
    by blast+
  from nrm n q v g i have n1: "bm25_retrieval rejecting_deps ?be ''text'' ?g ''AUTO'' 10 False fresh =
       Some (Inl (FilterError ''malformed''), fresh)"
    and n2: "embedding_retrieval rejecting_deps ?be [1, 2] ?g 10 None fresh =
       Some (Inl (FilterError ''malformed''), fresh)"
    and n3: "filter_documents rejecting_deps ?be ?g fresh =
       Some (Inl (FilterError ''malformed''), ?up)"
    by blast+
  from async r have ri: "ensure_initialized ?be ready = (Inr (), ready)" by blast
  from async ri d1 have s7: "write_documents_async example_deps ?be [NotADocument None] NONE ready =
       (Inl (ValueError not_documents_msg), ready)"
    and s8: "bm25_retrieval_async example_deps ?be [] None ''AUTO'' 10 False ready =
       Some (Inl (ValueError empty_query_msg), ready)"
    and s9: "embedding_retrieval_async example_deps ?be [] None 10 None ready =
       Some (Inl (ValueError empty_embedding_msg), ready)"
    by blast+
  from down u have s10: "write_documents_async example_deps unreachable_backend
       [NotADocument None] NONE fresh = (Inl TransportError, ?down)"
    by blast
  from s1 s2 s3 s5 s6 n1 n2 n3 s7 s8 s9 s10 show ?thesis by blast
qed

text \<open>Only \<^verbatim>\<open>documents[0]\<close> is checked: behind a \<^verbatim>\<open>Document\<close>, an object that is no
  \<^verbatim>\<open>Document\<close> but has \<^verbatim>\<open>id\<close> and \<^verbatim>\<open>to_dict\<close> is submitted to the backend, and one
  without them raises \<^verbatim>\<open>AttributeError\<close>, not the \<^verbatim>\<open>ValueError\<close> of the docstring.\<close>

lemma write_documents_checks_first_only:
  "write_documents example_deps (paged_backend [] 10)
     [Doc (example_doc ''a''), NotADocument (Some (''x'', [(''content'', JInt 1)]))] NONE ready =
     (Inr 2, send (Bulk [\<lparr>a_op_type = ''create'', a_id = ''a'',
                          a_source = [(''id'', JStr ''a''), (''content'', JStr ''text'')]\<rparr>,
                         \<lparr>a_op_type = ''create'', a_id = ''x'',
                          a_source = [(''content'', JInt 1)]\<rparr>] WaitFor) ready)
   \<and> write_documents example_deps (paged_backend [] 10)
     [Doc (example_doc ''a''), NotADocument None] NONE ready = (Inl AttributeError, ready)"
  by (simp add: write_documents_def elasticsearch_actions_def action_sync_def resolve_policy_def
      doc_source_def pop_sparse_embedding_def example_deps_def example_doc_def has_key_def
      ensure_initialized_def ready_def paged_backend_def reconcile_def)

text \<open>
  Claim C8, as stated, fails: on a store that is not yet initialized,
  \<^verbatim>\<open>write_documents_async\<close> with a batch that holds no \<^verbatim>\<open>Document\<close> probes the connection
  and creates the index before it raises \<^verbatim>\<open>ValueError\<close>.
\<close>

theorem async_validation_after_initialization:
  "calls (snd (write_documents_async example_deps (paged_backend [] 10) [NotADocument None] NONE fresh))
     = [Info, IndicesExists, IndicesCreate]
   \<and> fst (write_documents_async example_deps (paged_backend [] 10) [NotADocument None] NONE fresh)
     = Inl (ValueError not_documents_msg)"
  by (simp add: write_documents_async_def elasticsearch_actions_def ensure_initialized_def
      fresh_def paged_backend_def send_def)


section \<open>The synchronous and the asynchronous variants\<close>

text \<open>
  Claim C9, as amended. On an initialized store the two variants of \<^verbatim>\<open>filter_documents\<close>
  and of \<^verbatim>\<open>_bm25_retrieval\<close> are the same function, and so are the two variants of
  \<^verbatim>\<open>_embedding_retrieval\<close> unless \<^verbatim>\<open>num_candidates\<close> is 0. Under every policy but
  \<^verbatim>\<open>SKIP\<close> the two variants of \<^verbatim>\<open>write_documents\<close> choose the same verb, and when the
  bulk response reports no failed item they return the same count, after one bulk request
  with the same actions, with \<^verbatim>\<open>refresh="wait_for"\<close> in the synchronous and
  \<^verbatim>\<open>refresh=True\<close> in the asynchronous variant.
\<close>

theorem sync_async_agree:
  assumes i: "initialized st" and c: "clients_created st"
  shows "filter_documents_async dp be filters st = filter_documents dp be filters st
       \<and> bm25_retrieval_async dp be query_text filters fuzziness top_k scale_score st =
           bm25_retrieval dp be query_text filters fuzziness top_k scale_score st
       \<and> (num_candidates \<noteq> Some 0 \<longrightarrow>
            embedding_retrieval_async dp be query_embedding filters top_k num_candidates st =
            embedding_retrieval dp be query_embedding filters top_k num_candidates st)
       \<and> (policy \<noteq> SKIP \<longrightarrow> action_async policy = action_sync policy)
       \<and> (policy \<noteq> SKIP \<and> elasticsearch_actions dp (action_sync policy) documents = Inr acts
            \<and> bulk_resp be acts = Inr (n, []) \<longrightarrow>
            write_documents dp be documents policy st = (Inr n, send (Bulk acts WaitFor) st)
            \<and> write_documents_async dp be documents policy st =
                (Inr n, send (Bulk acts RefreshTrue) st))"
proof -
  have e: "ensure_initialized be st = (Inr (), st)" using i by (rule ensure_initialized_ready)
  have s: "\<And>kwargs. search_documents_async dp be kwargs st = search_documents dp be kwargs st"
    using i c by (rule search_documents_modes_agree)
  have 1: "filter_documents_async dp be filters st = filter_documents dp be filters st"
    by (simp add: filter_documents_def filter_documents_async_def e s split: sum.splits)
  have 2: "bm25_retrieval_async dp be query_text filters fuzziness top_k scale_score st =
           bm25_retrieval dp be query_text filters fuzziness top_k scale_score st"
    by (simp add: bm25_retrieval_def bm25_retrieval_async_def e s split: sum.splits)
  have 3: "num_candidates \<noteq> Some 0 \<longrightarrow>
            embedding_retrieval_async dp be query_embedding filters top_k num_candidates st =
            embedding_retrieval dp be query_embedding filters top_k num_candidates st"
    by (auto simp: embedding_retrieval_def embedding_retrieval_async_def e s candidates_sync_def
        candidates_async_def split: option.splits sum.splits)
  have 4: "policy \<noteq> SKIP \<longrightarrow> action_async policy = action_sync policy"
    by (simp add: action_async_sync)
  have 5: "policy \<noteq> SKIP \<and> elasticsearch_actions dp (action_sync policy) documents = Inr acts
            \<and> bulk_resp be acts = Inr (n, []) \<longrightarrow>
            write_documents dp be documents policy st = (Inr n, send (Bulk acts WaitFor) st)
            \<and> write_documents_async dp be documents policy st =
                (Inr n, send (Bulk acts RefreshTrue) st)"
  proof (intro impI, elim conjE)
    assume p: "policy \<noteq> SKIP"
      and a: "elasticsearch_actions dp (action_sync policy) documents = Inr acts"
      and b: "bulk_resp be acts = Inr (n, [])"
    have a': "elasticsearch_actions dp (action_async policy) documents = Inr acts"
      using a p by (simp add: action_async_sync)
    show "write_documents dp be documents policy st = (Inr n, send (Bulk acts WaitFor) st)
            \<and> write_documents_async dp be documents policy st =
                (Inr n, send (Bulk acts RefreshTrue) st)"
      using write_documents_submitted[OF a e b] write_documents_async_submitted[OF a' i b]
      by (simp add: reconcile_def)
  qed
  from 1 2 3 4 5 show ?thesis by blast
qed

theorem sync_async_agree_witness:
  "initialized ready \<and> clients_created ready
   \<and> filter_documents_async example_deps (existing_backend [''a'']) None ready =
       filter_documents example_deps (existing_backend [''a'']) None ready
   \<and> bm25_retrieval_async example_deps (existing_backend [''a'']) ''text'' None ''AUTO'' 10 True ready =
       bm25_retrieval example_deps (existing_backend [''a'']) ''text'' None ''AUTO'' 10 True ready
   \<and> embedding_retrieval_async example_deps (existing_backend [''a'']) [1, 2] None 5 None ready =
       embedding_retrieval example_deps (existing_backend [''a'']) [1, 2] None 5 None ready
   \<and> action_async FAIL = action_sync FAIL
   \<and> write_documents example_deps (existing_backend [''a'']) [Doc (example_doc ''b'')] FAIL ready =
       (Inr 1, send (Bulk [\<lparr>a_op_type = ''create'', a_id = ''b'',
             a_source = [(''id'', JStr ''b''), (''content'', JStr ''text'')]\<rparr>] WaitFor) ready)
   \<and> write_documents_async example_deps (existing_backend [''a'']) [Doc (example_doc ''b'')] FAIL ready =
       (Inr 1, send (Bulk [\<lparr>a_op_type = ''create'', a_id = ''b'',
             a_source = [(''id'', JStr ''b''), (''content'', JStr ''text'')]\<rparr>] RefreshTrue) ready)"
proof -
  let ?acts = "[\<lparr>a_op_type = ''create'', a_id = ''b'',
             a_source = [(''id'', JStr ''b''), (''content'', JStr ''text'')]\<rparr>] :: int action list"
  have i: "initialized ready" and c: "clients_created ready" by (simp_all add: ready_def)
  have p: "FAIL \<noteq> SKIP" by simp
  have n: "None \<noteq> Some (0::int)" by simp
  have a: "elasticsearch_actions example_deps (action_sync FAIL) [Doc (example_doc ''b'')] = Inr ?acts"
    by (simp add: action_sync_def resolve_policy_def elasticsearch_actions_def doc_source_def pop_sparse_embedding_def example_deps_def
        example_doc_def has_key_def)
  have b: "bulk_resp (existing_backend [''a'']) ?acts = Inr (1, [])"
    by (simp add: existing_backend_def)
  note t = sync_async_agree[OF i c, where dp = example_deps and be = "existing_backend [''a'']"
      and filters = None and query_text = "''text''" and fuzziness = "''AUTO''" and top_k = 10
      and scale_score = True and policy = FAIL and documents = "[Doc (example_doc ''b'')]"
      and acts = ?acts and n = 1 and num_candidates = None]
  note t5 = sync_async_agree[OF i c, where dp = example_deps and be = "existing_backend [''a'']"
      and filters = None and query_embedding = "[1, 2]" and top_k = 5 and num_candidates = None]
  from t p a b t5 n i c show ?thesis by blast
qed


text \<open>
  Claim C9, as stated, fails: for a batch of two documents under \<^verbatim>\<open>FAIL\<close>, one of which
  exists, the two variants send the same verbs and get the same response, but ask for
  another refresh and raise exceptions of different classes.
\<close>

theorem sync_async_differ:
  "map_sum class_of id (fst (write_documents example_deps (existing_backend [''a''])
       [Doc (example_doc ''a''), Doc (example_doc ''b'')] FAIL ready))
     = Inl DuplicateDocumentErrorC
   \<and> map_sum class_of id (fst (write_documents_async example_deps (existing_backend [''a''])
       [Doc (example_doc ''a''), Doc (example_doc ''b'')] FAIL ready))
     = Inl DocumentStoreErrorC
   \<and> map (\<lambda>c. case c of Bulk acts r \<Rightarrow> Some (map a_op_type acts, r) | _ \<Rightarrow> None)
       (calls (snd (write_documents example_deps (existing_backend [''a''])
          [Doc (example_doc ''a''), Doc (example_doc ''b'')] FAIL ready)))
     = [Some ([''create'', ''create''], WaitFor)]
   \<and> map (\<lambda>c. case c of Bulk acts r \<Rightarrow> Some (map a_op_type acts, r) | _ \<Rightarrow> None)
       (calls (snd (write_documents_async example_deps (existing_backend [''a''])
          [Doc (example_doc ''a''), Doc (example_doc ''b'')] FAIL ready)))
     = [Some ([''create'', ''create''], RefreshTrue)]"
  by (simp add: write_documents_async_def write_documents_def ensure_initialized_def ready_def
      existing_backend_def example_deps_def example_doc_def action_async_def action_sync_def
      resolve_policy_def elasticsearch_actions_def doc_source_def pop_sparse_embedding_def has_key_def send_def reconcile_async_def reconcile_def
      except_Exception_def conflict_item_def DOC_ALREADY_EXISTS_def version_conflict_def)

end
